theory Spec2Isabelle
  imports Main "HOL-Library.Sublist" "HOL-Library.Multiset"
begin

section \<open>Go values the program relies on\<close>

text \<open>
  A Go \<^verbatim>\<open>string\<close> is a sequence of bytes, here a \<^typ>\<open>string\<close> (a list of 8-bit
  characters). The three control characters the program writes or trims are named.
\<close>

definition TAB :: char where "TAB = CHR 0x09"
definition NL :: char where "NL = CHR 0x0A"
definition CR :: char where "CR = CHR 0x0D"

text \<open>
  A Go function either returns or panics. A panic that no deferred function recovers
  ends the process; the runtime panics the program can raise are the four below, with
  the numbers of the runtime's message.
\<close>

datatype panic =
    IndexOutOfRange nat nat      \<comment> \<open>index out of range [i] with length n\<close>
  | SliceBoundsOutOfRange nat nat \<comment> \<open>slice bounds out of range [lo:hi]\<close>
  | NilDereference               \<comment> \<open>invalid memory address or nil pointer dereference\<close>
  | DivideByZero                 \<comment> \<open>integer divide by zero\<close>

datatype 'a outcome = Returns 'a | Panics panic

text \<open>\<^verbatim>\<open>int\<close>, \<^verbatim>\<open>int64\<close> and \<^verbatim>\<open>time.Duration\<close> are 64-bit two's complement: arithmetic
  that leaves the range wraps around. \<^verbatim>\<open>/\<close> truncates towards zero.\<close>

definition wrap64 :: "int \<Rightarrow> int" where
  "wrap64 x = (x + 2 ^ 63) mod 2 ^ 64 - 2 ^ 63"

definition quot :: "int \<Rightarrow> int \<Rightarrow> int" where
  "quot a b = (if (a < 0) = (b < 0) then \<bar>a\<bar> div \<bar>b\<bar> else - (\<bar>a\<bar> div \<bar>b\<bar>))"

definition Minute :: int where
  "Minute = 60000000000"

subsection \<open>Package strings\<close>

text \<open>
  \<^verbatim>\<open>strings.Split(s, sep)\<close> for a non-empty separator: the pieces between the
  non-overlapping occurrences of \<open>sep\<close>, found from the left; always at least one piece.
  (The program only splits on the constants \<^verbatim>\<open>" "\<close>, \<^verbatim>\<open>":"\<close>, \<^verbatim>\<open>","\<close> and \<^verbatim>\<open>", "\<close>.)
\<close>

function genSplit :: "string \<Rightarrow> string \<Rightarrow> string \<Rightarrow> string list" where
  "genSplit sep acc [] = [rev acc]"
| "genSplit sep acc (c # cs) =
     (if sep \<noteq> [] \<and> prefix sep (c # cs)
      then rev acc # genSplit sep [] (drop (length sep) (c # cs))
      else genSplit sep (c # acc) cs)"
  by pat_completeness auto
termination
  by (relation "measure (\<lambda>(sep, acc, s). length s)") (auto simp: neq_Nil_conv)

definition strings_Split :: "string \<Rightarrow> string \<Rightarrow> string list" where
  "strings_Split s sep = genSplit sep [] s"

fun strings_Join :: "string list \<Rightarrow> string \<Rightarrow> string" where
  "strings_Join [] sep = []"
| "strings_Join [x] sep = x"
| "strings_Join (x # y # ys) sep = x @ sep @ strings_Join (y # ys) sep"

definition strings_HasPrefix :: "string \<Rightarrow> string \<Rightarrow> bool" where
  "strings_HasPrefix s p = prefix p s"

definition strings_TrimPrefix :: "string \<Rightarrow> string \<Rightarrow> string" where
  "strings_TrimPrefix s p = (if strings_HasPrefix s p then drop (length p) s else s)"

text \<open>\<^verbatim>\<open>strings.Trim(s, cutset)\<close> for a cutset of ASCII characters: the leading and
  trailing bytes that are in the cutset are removed.\<close>

definition strings_Trim :: "string \<Rightarrow> string \<Rightarrow> string" where
  "strings_Trim s cutset =
     rev (dropWhile (\<lambda>c. c \<in> set cutset) (rev (dropWhile (\<lambda>c. c \<in> set cutset) s)))"

fun strings_Contains :: "string \<Rightarrow> string \<Rightarrow> bool" where
  "strings_Contains [] sub = (sub = [])"
| "strings_Contains (c # cs) sub = (prefix sub (c # cs) \<or> strings_Contains cs sub)"

text \<open>\<^verbatim>\<open>strings.LastIndexByte(s, c)\<close>: the index of the last \<open>c\<close> in \<open>s\<close>, \<open>None\<close> for Go's
  \<open>-1\<close>.\<close>

fun LastIndexByte_from :: "nat \<Rightarrow> string \<Rightarrow> char \<Rightarrow> nat option" where
  "LastIndexByte_from i [] c = None"
| "LastIndexByte_from i (x # xs) c =
     (case LastIndexByte_from (Suc i) xs c of
        Some j \<Rightarrow> Some j
      | None \<Rightarrow> if x = c then Some i else None)"

definition strings_LastIndexByte :: "string \<Rightarrow> char \<Rightarrow> nat option" where
  "strings_LastIndexByte s c = LastIndexByte_from 0 s c"

text \<open>
  White space as \<^verbatim>\<open>unicode.IsSpace\<close> defines it, in UTF-8: the six ASCII characters,
  U+0085, U+00A0, U+1680, U+2000 to U+200A, U+2028, U+2029, U+202F, U+205F and U+3000.
  Go decodes a string rune by rune; since no encoding below starts inside another
  valid rune, looking for one of them at the current byte finds the same runes.
\<close>

definition unicode_spaces :: "string list" where
  "unicode_spaces =
     [[CHR 0x09], [CHR 0x0A], [CHR 0x0B], [CHR 0x0C], [CHR 0x0D], [CHR 0x20],
      [CHR 0xC2, CHR 0x85], [CHR 0xC2, CHR 0xA0],
      [CHR 0xE1, CHR 0x9A, CHR 0x80],
      [CHR 0xE2, CHR 0x80, CHR 0x80], [CHR 0xE2, CHR 0x80, CHR 0x81],
      [CHR 0xE2, CHR 0x80, CHR 0x82], [CHR 0xE2, CHR 0x80, CHR 0x83],
      [CHR 0xE2, CHR 0x80, CHR 0x84], [CHR 0xE2, CHR 0x80, CHR 0x85],
      [CHR 0xE2, CHR 0x80, CHR 0x86], [CHR 0xE2, CHR 0x80, CHR 0x87],
      [CHR 0xE2, CHR 0x80, CHR 0x88], [CHR 0xE2, CHR 0x80, CHR 0x89],
      [CHR 0xE2, CHR 0x80, CHR 0x8A], [CHR 0xE2, CHR 0x80, CHR 0xA8],
      [CHR 0xE2, CHR 0x80, CHR 0xA9], [CHR 0xE2, CHR 0x80, CHR 0xAF],
      [CHR 0xE2, CHR 0x81, CHR 0x9F], [CHR 0xE3, CHR 0x80, CHR 0x80]]"

text \<open>The number of bytes of the white-space rune \<open>s\<close> starts with (0: none), and of
  the one it ends with.\<close>

definition leading_space :: "string \<Rightarrow> nat" where
  "leading_space s =
     (case find (\<lambda>w. prefix w s) unicode_spaces of None \<Rightarrow> 0 | Some w \<Rightarrow> length w)"

definition trailing_space :: "string \<Rightarrow> nat" where
  "trailing_space s =
     (case find (\<lambda>w. suffix w s) unicode_spaces of None \<Rightarrow> 0 | Some w \<Rightarrow> length w)"

lemma leading_space_le: "leading_space s \<le> length s"
  by (auto simp: leading_space_def prefix_def split: option.splits simp: find_Some_iff)

lemma trailing_space_le: "trailing_space s \<le> length s"
  by (auto simp: trailing_space_def suffix_def split: option.splits simp: find_Some_iff)

lemma leading_space_Nil [simp]: "leading_space [] = 0"
  using leading_space_le [of "[]"] by simp

lemma trailing_space_Nil [simp]: "trailing_space [] = 0"
  using trailing_space_le [of "[]"] by simp

text \<open>\<^verbatim>\<open>strings.Fields(s)\<close>: the maximal runs of non-space runes.\<close>

function Fields_from :: "string \<Rightarrow> string \<Rightarrow> string list" where
  "Fields_from acc s =
     (if s = [] then (if acc = [] then [] else [rev acc])
      else if leading_space s = 0 then Fields_from (hd s # acc) (tl s)
      else (if acc = [] then [] else [rev acc]) @ Fields_from [] (drop (leading_space s) s))"
  by pat_completeness auto
termination
  by (relation "measure (\<lambda>(acc, s). length s)") auto

definition strings_Fields :: "string \<Rightarrow> string list" where
  "strings_Fields s = Fields_from [] s"

text \<open>\<^verbatim>\<open>strings.TrimSpace(s)\<close>: leading white space is removed, then trailing.\<close>

function TrimLeft_space :: "string \<Rightarrow> string" where
  "TrimLeft_space s = (if leading_space s = 0 then s else TrimLeft_space (drop (leading_space s) s))"
  by pat_completeness auto
termination
proof (relation "measure length")
  fix s :: string
  assume "leading_space s \<noteq> 0"
  moreover have "s \<noteq> []" using calculation by auto
  ultimately show "(drop (leading_space s) s, s) \<in> measure length" by simp
qed simp

function TrimRight_space :: "string \<Rightarrow> string" where
  "TrimRight_space s =
     (if trailing_space s = 0 then s
      else TrimRight_space (take (length s - trailing_space s) s))"
  by pat_completeness auto
termination
proof (relation "measure length")
  fix s :: string
  assume "trailing_space s \<noteq> 0"
  moreover have "s \<noteq> []" using calculation by auto
  ultimately show "(take (length s - trailing_space s) s, s) \<in> measure length" by simp
qed simp

definition strings_TrimSpace :: "string \<Rightarrow> string" where
  "strings_TrimSpace s = TrimRight_space (TrimLeft_space s)"

declare Fields_from.simps [simp del] TrimLeft_space.simps [simp del] TrimRight_space.simps [simp del]

subsection \<open>Package strconv\<close>

text \<open>
  \<^verbatim>\<open>strconv.ParseInt(s, base, 64)\<close> and \<^verbatim>\<open>strconv.Atoi(s)\<close>, for the bases the program
  passes (0 and 10). A digit is \<^verbatim>\<open>0-9\<close>, or a letter of either case counting from 10.
  With base 0 the prefix chooses the base (\<^verbatim>\<open>0b\<close>, \<^verbatim>\<open>0o\<close>, \<^verbatim>\<open>0x\<close>, a bare leading \<^verbatim>\<open>0\<close> for
  octal) and underscores may separate digits. The library returns at the first
  offending byte, so the order of the tests below is the library's.
\<close>

datatype NumError = ErrSyntax | ErrRange

definition digit_val :: "char \<Rightarrow> int option" where
  "digit_val c =
     (let n = (of_char c :: int) in
      if 48 \<le> n \<and> n \<le> 57 then Some (n - 48)
      else if 97 \<le> n \<and> n \<le> 122 then Some (n - 97 + 10)
      else if 65 \<le> n \<and> n \<le> 90 then Some (n - 65 + 10)
      else None)"

definition maxUint64 :: int where
  "maxUint64 = 2 ^ 64 - 1"

fun uint_digits :: "bool \<Rightarrow> int \<Rightarrow> int \<Rightarrow> string \<Rightarrow> NumError + int" where
  "uint_digits base0 base n [] = Inr n"
| "uint_digits base0 base n (c # cs) =
     (if c = CHR ''_'' \<and> base0 then uint_digits base0 base n cs
      else case digit_val c of
        None \<Rightarrow> Inl ErrSyntax
      | Some d \<Rightarrow>
          if base \<le> d then Inl ErrSyntax
          else if maxUint64 div base + 1 \<le> n then Inl ErrRange
          else if maxUint64 < n * base + d then Inl ErrRange
          else uint_digits base0 base (n * base + d) cs)"

text \<open>\<^verbatim>\<open>underscoreOK\<close>: an underscore stands only between digits, or between a base
  prefix and a digit. \<open>saw\<close> is the kind of the last byte read.\<close>

datatype saw = SawStart | SawDigit | SawUnderscore | SawOther

fun underscoreOK_from :: "bool \<Rightarrow> saw \<Rightarrow> string \<Rightarrow> bool" where
  "underscoreOK_from hex sw [] = (sw \<noteq> SawUnderscore)"
| "underscoreOK_from hex sw (c # cs) =
     (if c \<in> set ''0123456789'' \<or> (hex \<and> c \<in> set ''abcdefABCDEF'')
      then underscoreOK_from hex SawDigit cs
      else if c = CHR ''_''
      then (if sw \<noteq> SawDigit then False else underscoreOK_from hex SawUnderscore cs)
      else if sw = SawUnderscore then False
      else underscoreOK_from hex SawOther cs)"

definition underscoreOK :: "string \<Rightarrow> bool" where
  "underscoreOK s0 =
     (let s = (if s0 \<noteq> [] \<and> (hd s0 = CHR ''-'' \<or> hd s0 = CHR ''+'') then tl s0 else s0) in
      if 2 \<le> length s \<and> hd s = CHR ''0'' \<and> s ! 1 \<in> set ''bBoOxX''
      then underscoreOK_from (s ! 1 \<in> set ''xX'') SawDigit (drop 2 s)
      else underscoreOK_from False SawStart s)"

text \<open>The base and the digits of a base-0 literal.\<close>

definition base_prefix :: "string \<Rightarrow> int \<times> string" where
  "base_prefix s =
     (if s \<noteq> [] \<and> hd s = CHR ''0'' then
        (if 3 \<le> length s \<and> s ! 1 \<in> set ''bB'' then (2, drop 2 s)
         else if 3 \<le> length s \<and> s ! 1 \<in> set ''oO'' then (8, drop 2 s)
         else if 3 \<le> length s \<and> s ! 1 \<in> set ''xX'' then (16, drop 2 s)
         else (8, drop 1 s))
      else (10, s))"

definition strconv_ParseUint :: "string \<Rightarrow> int \<Rightarrow> NumError + int" where
  "strconv_ParseUint s base =
     (if s = [] then Inl ErrSyntax
      else
        (let bd = (if base = 0 then base_prefix s else (base, s)) in
         case uint_digits (base = 0) (fst bd) 0 (snd bd) of
           Inl e \<Rightarrow> Inl e
         | Inr n \<Rightarrow>
             if base = 0 \<and> CHR ''_'' \<in> set (snd bd) \<and> \<not> underscoreOK s
             then Inl ErrSyntax else Inr n))"

definition strconv_ParseInt :: "string \<Rightarrow> int \<Rightarrow> NumError + int" where
  "strconv_ParseInt s base =
     (if s = [] then Inl ErrSyntax
      else
        (let neg = (hd s = CHR ''-'');
             s1 = (if hd s = CHR ''+'' \<or> hd s = CHR ''-'' then tl s else s)
         in case strconv_ParseUint s1 base of
              Inl e \<Rightarrow> Inl e
            | Inr un \<Rightarrow>
                if \<not> neg \<and> 2 ^ 63 \<le> un then Inl ErrRange
                else if neg \<and> 2 ^ 63 < un then Inl ErrRange
                else Inr (if neg then - un else un)))"

text \<open>\<^verbatim>\<open>strconv.Atoi\<close> is \<^verbatim>\<open>ParseInt(s, 10, 0)\<close> with \<^verbatim>\<open>int\<close> of 64 bits; its fast path
  for short inputs computes the same value and the same error.\<close>

definition strconv_Atoi :: "string \<Rightarrow> NumError + int" where
  "strconv_Atoi s = strconv_ParseInt s 10"

subsection \<open>Package bufio\<close>

text \<open>
  \<^verbatim>\<open>bufio.Scanner\<close> with the default split function \<^verbatim>\<open>ScanLines\<close>: the input is cut at
  every newline, a last line needs no newline, one trailing carriage return is dropped
  from each line. A line of \<^verbatim>\<open>MaxScanTokenSize\<close> bytes or more makes \<^verbatim>\<open>Scan\<close> return false
  for good; the program never looks at \<^verbatim>\<open>scan.Err()\<close>, so for it the input ends there.
\<close>

fun raw_lines :: "string \<Rightarrow> string \<Rightarrow> string list" where
  "raw_lines acc [] = (if acc = [] then [] else [rev acc])"
| "raw_lines acc (c # cs) =
     (if c = NL then rev acc # raw_lines [] cs else raw_lines (c # acc) cs)"

definition dropCR :: "string \<Rightarrow> string" where
  "dropCR s = (if s \<noteq> [] \<and> last s = CR then butlast s else s)"

definition MaxScanTokenSize :: nat where
  "MaxScanTokenSize = 65536"

definition Scanner_lines :: "string \<Rightarrow> string list" where
  "Scanner_lines r =
     map dropCR (takeWhile (\<lambda>l. length l < MaxScanTokenSize) (raw_lines [] r))"

section \<open>The data model\<close>

record Frame =
  Function :: string
  Params :: "string list"
  File :: string
  Line :: int
  Entry :: int

record CreatedBy =
  Function_cb :: string
  File_cb :: string
  Line_cb :: int
  Entry_cb :: int

record Stack =
  Number :: int
  State :: string
  WaitTime :: int
  Frames :: "Frame list"
  ThreadLocked :: bool
  CreatedBy :: CreatedBy

text \<open>The zero value of \<^verbatim>\<open>CreatedBy\<close>, which a \<^verbatim>\<open>Stack\<close> literal that names no
  \<^verbatim>\<open>CreatedBy\<close> field holds. The field is a struct, not a pointer: it is never absent.\<close>

definition CreatedBy_zero :: CreatedBy where
  "CreatedBy_zero = \<lparr>Function_cb = [], File_cb = [], Line_cb = 0, Entry_cb = 0\<rparr>"

section \<open>Parsing\<close>

text \<open>
  The errors \<^verbatim>\<open>ParseStacks\<close> and \<^verbatim>\<open>parseEntryLine\<close> build, one constructor per
  \<^verbatim>\<open>fmt.Errorf\<close> call, holding the arguments of the format in place of the text.
\<close>

datatype perror =
    CompileFailed                \<comment> \<open>failed to compile line prefix regexp\<close>
  | UnexpectedFormatting string  \<comment> \<open>unexpected formatting: \%s, the header line\<close>
  | WeirdTime string             \<comment> \<open>weirdly formatted time string: \%q, of \<^verbatim>\<open>state[1]\<close>\<close>
  | AtoiError string NumError    \<comment> \<open>the \<^verbatim>\<open>*strconv.NumError\<close> of \<^verbatim>\<open>Atoi\<close>, returned as it is\<close>
  | NoFileInfo nat               \<comment> \<open>no file info after 'created by' line on line \%d\<close>
  | ExpectedColon int            \<comment> \<open>expected a colon: \%q, of the \<^verbatim>\<open>int64\<close> result \<^verbatim>\<open>line\<close>\<close>
  | BadLineNumber string         \<comment> \<open>error parsing line number: \%s, the token\<close>
  | BadEntryOffset string        \<comment> \<open>error parsing entry offset: \%s, the token\<close>
  | AtLine nat perror            \<comment> \<open>line \%d: \%w\<close>
  | PanicAtLine nat panic        \<comment> \<open>line \%d: [panic] \%s, and the stack trace\<close>

text \<open>
  \<^verbatim>\<open>parseEntryLine\<close>. The results are named: when the colon test fails, \<^verbatim>\<open>line\<close> is the
  \<^verbatim>\<open>int64\<close> result, not yet assigned, and that zero is what the message formats.
\<close>

definition parseEntryLine :: "string \<Rightarrow> perror + (string \<times> int \<times> int)" where
  "parseEntryLine s =
     (let parts = strings_Split s '':'';
          file = strings_Trim (parts ! 0) [CHR '' '', TAB, NL]
      in if length parts \<noteq> 2 then Inl (ExpectedColon 0)
         else
           (let lineAndEntry = strings_Split (parts ! 1) '' '' in
            case strconv_ParseInt (lineAndEntry ! 0) 0 of
              Inl e \<Rightarrow> Inl (BadLineNumber (lineAndEntry ! 0))
            | Inr line \<Rightarrow>
                if 1 < length lineAndEntry then
                  (case strconv_ParseInt (lineAndEntry ! 1) 0 of
                     Inl e \<Rightarrow> Inl (BadEntryOffset (lineAndEntry ! 1))
                   | Inr entry \<Rightarrow> Inr (file, line, entry))
                else Inr (file, line, 0)))"

text \<open>
  The header branch of the loop: the fields after the state. The loop variable is \<open>s\<close>,
  but the time is read from \<^verbatim>\<open>state[1]\<close> at every turn, as the source does.
\<close>

fun header_fields :: "string list \<Rightarrow> string list \<Rightarrow> int \<Rightarrow> bool \<Rightarrow> perror + (int \<times> bool)" where
  "header_fields state [] timev locked = Inr (timev, locked)"
| "header_fields state (s # ss) timev locked =
     (if s = '' locked to thread'' then header_fields state ss timev True
      else
        (let timeparts = strings_Fields (state ! 1) in
         if length timeparts \<noteq> 2 then Inl (WeirdTime (state ! 1))
         else case strconv_Atoi (timeparts ! 0) of
                Inl e \<Rightarrow> Inl (AtoiError (timeparts ! 0) e)
              | Inr val \<Rightarrow> header_fields state ss (wrap64 (val * Minute)) locked))"

definition header_line :: "string \<Rightarrow> (perror + Stack) outcome" where
  "header_line line =
     (let parts = strings_Split line '' '' in
      if length parts < 2 then Panics (IndexOutOfRange 1 (length parts))
      else case strconv_Atoi (parts ! 1) of
        Inl e \<Rightarrow> Returns (Inl (UnexpectedFormatting line))
      | Inr num \<Rightarrow>
          (let state = strings_Split
                 (strings_Trim (strings_Join (drop 2 parts) '' '') ''[]:'') '','' in
           case header_fields state (tl state) 0 False of
             Inl e \<Rightarrow> Returns (Inl e)
           | Inr (timev, locked) \<Rightarrow>
               Returns (Inr \<lparr>Number = num, State = state ! 0, WaitTime = timev, Frames = [],
                             ThreadLocked = locked, CreatedBy = CreatedBy_zero\<rparr>)))"

text \<open>
  The first line of a frame: the function and its parameters. \<^verbatim>\<open>line[n+1:len(line)-1]\<close>
  panics when the last \<^verbatim>\<open>(\<close> is the last byte of the line.
\<close>

definition function_line :: "string \<Rightarrow> Frame outcome" where
  "function_line line =
     (case strings_LastIndexByte line (CHR ''('') of
        None \<Rightarrow> Returns \<lparr>Function = line, Params = [], File = [], Line = 0, Entry = 0\<rparr>
      | Some n \<Rightarrow>
          if length line - 1 < n + 1
          then Panics (SliceBoundsOutOfRange (n + 1) (length line - 1))
          else Returns \<lparr>Function = take n line,
                 Params = strings_Split (take (length line - 1 - (n + 1)) (drop (n + 1) line)) '', '',
                 File = [], Line = 0, Entry = 0\<rparr>)"

text \<open>
  A compiled \<^verbatim>\<open>*regexp.Regexp\<close> is used through \<^verbatim>\<open>Find\<close> only and is modelled by that
  method: the text of the leftmost match, empty when there is none. \<open>None\<close> is
  \<^verbatim>\<open>re == nil\<close>.
\<close>

definition strip_prefix :: "(string \<Rightarrow> string) option \<Rightarrow> string \<Rightarrow> string outcome" where
  "strip_prefix re line =
     (case re of
        None \<Rightarrow> Returns line
      | Some Find \<Rightarrow>
          (let pref = Find line in
           if length pref = length line then Returns []
           else if length line < length pref
           then Panics (SliceBoundsOutOfRange (length pref) (length line))
           else Returns (strings_TrimSpace (drop (length pref) line))))"

text \<open>The local variables of \<^verbatim>\<open>ParseStacks\<close> that live across the lines.\<close>

record parser =
  cur :: "Stack option"
  stacks :: "Stack list"
  frame :: "Frame option"
  lineNo :: nat

text \<open>How one turn of the loop ends.\<close>

datatype action =
    Next parser        \<comment> \<open>the loop goes on with the following line\<close>
  | NextAfter parser   \<comment> \<open>the same, after \<^verbatim>\<open>scan.Scan()\<close> took the following line too\<close>
  | ReturnErr perror   \<comment> \<open>\<^verbatim>\<open>return nil, err\<close>\<close>
  | Panicked panic

definition iteration :: "(string \<Rightarrow> string) option \<Rightarrow> parser \<Rightarrow> string \<Rightarrow> string list \<Rightarrow> action" where
  "iteration re p raw rest =
     (case strip_prefix re raw of
        Panics e \<Rightarrow> Panicked e
      | Returns line \<Rightarrow>
          if strings_HasPrefix line ''goroutine'' then
            (let p1 = (case cur p of
                         Some c \<Rightarrow> p\<lparr>stacks := stacks p @ [c], cur := None\<rparr>
                       | None \<Rightarrow> p)
             in case header_line line of
                  Panics e \<Rightarrow> Panicked e
                | Returns (Inl e) \<Rightarrow> ReturnErr e
                | Returns (Inr st) \<Rightarrow> Next (p1\<lparr>cur := Some st\<rparr>))
          else if line = [] then
            Next ((case cur p of
                     Some c \<Rightarrow> p\<lparr>stacks := stacks p @ [c]\<rparr>
                   | None \<Rightarrow> p)\<lparr>cur := None\<rparr>)
          else if strings_HasPrefix line ''created by'' then
            (let fn = strings_TrimPrefix line ''created by '' in
             case rest of
               [] \<Rightarrow> ReturnErr (NoFileInfo (lineNo p))
             | following # _ \<Rightarrow>
                 (case parseEntryLine following of
                    Inl e \<Rightarrow> ReturnErr e
                  | Inr (file, ln, entry) \<Rightarrow>
                      (case cur p of
                         None \<Rightarrow> Panicked NilDereference
                       | Some c \<Rightarrow>
                           NextAfter (p\<lparr>cur := Some (c\<lparr>CreatedBy :=
                             \<lparr>Function_cb = fn, File_cb = file, Line_cb = ln,
                              Entry_cb = entry\<rparr>\<rparr>)\<rparr>))))
          else
            (case frame p of
               None \<Rightarrow>
                 (case function_line line of
                    Panics e \<Rightarrow> Panicked e
                  | Returns f \<Rightarrow> Next (p\<lparr>frame := Some f\<rparr>))
             | Some f \<Rightarrow>
                 (case parseEntryLine line of
                    Inl e \<Rightarrow> ReturnErr e
                  | Inr (file, ln, entry) \<Rightarrow>
                      (case cur p of
                         None \<Rightarrow> Panicked NilDereference
                       | Some c \<Rightarrow>
                           Next (p\<lparr>cur := Some (c\<lparr>Frames := Frames c @
                                    [f\<lparr>File := file, Line := ln, Entry := entry\<rparr>]\<rparr>),
                                  frame := None\<rparr>)))))"

text \<open>
  The loop over the scanner's lines, and what follows it. The result is the value of
  \<open>lineNo\<close> when the body is left, and how it is left: by a \<^verbatim>\<open>return\<close> with its two
  values, or by a panic.
\<close>

fun scan_loop :: "(string \<Rightarrow> string) option \<Rightarrow> parser \<Rightarrow> string list \<Rightarrow>
    nat \<times> (Stack list \<times> perror option) outcome" where
  "scan_loop re p [] =
     (lineNo p, Returns ((case cur p of Some c \<Rightarrow> stacks p @ [c] | None \<Rightarrow> stacks p), None))"
| "scan_loop re p (raw # rest) =
     (case iteration re (p\<lparr>lineNo := lineNo p + 1\<rparr>) raw rest of
        Next p' \<Rightarrow> scan_loop re p' rest
      | NextAfter p' \<Rightarrow> scan_loop re p' (tl rest)
      | ReturnErr e \<Rightarrow> (lineNo p + 1, Returns ([], Some e))
      | Panicked e \<Rightarrow> (lineNo p + 1, Panics e))"

text \<open>
  The deferred function: a panic is recovered and becomes the error, an error gets the
  line number in front. After a panic the first result is the zero value, \<^verbatim>\<open>nil\<close>.
\<close>

fun deferred :: "nat \<Rightarrow> (Stack list \<times> perror option) outcome \<Rightarrow>
    (Stack list \<times> perror option) outcome" where
  "deferred n (Panics r) = Returns ([], Some (PanicAtLine n r))"
| "deferred n (Returns (sts, Some e)) = Returns (sts, Some (AtLine n e))"
| "deferred n (Returns (sts, None)) = Returns (sts, None)"

definition parser_init :: parser where
  "parser_init = \<lparr>cur = None, stacks = [], frame = None, lineNo = 0\<rparr>"

text \<open>
  \<^verbatim>\<open>ParseStacks(r, linePrefix)\<close>. \<open>r\<close> is the text the reader delivers. \<^verbatim>\<open>regexp.Compile\<close>
  is the parameter \<open>Compile\<close>: \<open>None\<close> when it returns an error. The compilation comes
  before the \<^verbatim>\<open>defer\<close> statement.
\<close>

definition ParseStacks :: "(string \<Rightarrow> (string \<Rightarrow> string) option) \<Rightarrow> string \<Rightarrow> string \<Rightarrow>
    (Stack list \<times> perror option) outcome" where
  "ParseStacks Compile r linePrefix =
     (if linePrefix \<noteq> [] then
        (case Compile linePrefix of
           None \<Rightarrow> Returns ([], Some CompileFailed)
         | Some re \<Rightarrow>
             (case scan_loop (Some re) parser_init (Scanner_lines r) of
                (n, ex) \<Rightarrow> deferred n ex))
      else
        (case scan_loop None parser_init (Scanner_lines r) of
           (n, ex) \<Rightarrow> deferred n ex))"

subsection \<open>The lines of an input\<close>

text \<open>
  The branch of the loop that a line takes, after the prefix has been stripped, in the
  order of the tests of the loop; \<open>Unreadable\<close> is a line at which the stripping panics.
\<close>

datatype line_kind = Header | Blank | CreatedByLine | FrameLine | Unreadable

definition kind :: "(string \<Rightarrow> string) option \<Rightarrow> string \<Rightarrow> line_kind" where
  "kind re raw =
     (case strip_prefix re raw of
        Panics e \<Rightarrow> Unreadable
      | Returns line \<Rightarrow>
          if strings_HasPrefix line ''goroutine'' then Header
          else if line = [] then Blank
          else if strings_HasPrefix line ''created by'' then CreatedByLine
          else FrameLine)"

text \<open>
  The loop run over the first lines of an input: the state it reaches after them, \<open>None\<close>
  when it is left within them.
\<close>

fun run :: "(string \<Rightarrow> string) option \<Rightarrow> parser \<Rightarrow> string list \<Rightarrow> parser option" where
  "run re p [] = Some p"
| "run re p (raw # rest) =
     (case iteration re (p\<lparr>lineNo := lineNo p + 1\<rparr>) raw rest of
        Next p' \<Rightarrow> run re p' rest
      | NextAfter p' \<Rightarrow> (if rest = [] then None else run re p' (tl rest))
      | ReturnErr e \<Rightarrow> None
      | Panicked e \<Rightarrow> None)"




text \<open>A stack as its header line opened it: without the frames and the creator that
  later lines add.\<close>

definition opened :: "Stack \<Rightarrow> Stack" where
  "opened s = s\<lparr>Frames := [], CreatedBy := CreatedBy_zero\<rparr>"




section \<open>Rendering\<close>

text \<open>
  The verbs of package fmt the program uses on integers: \<^verbatim>\<open>\%d\<close>, and \<^verbatim>\<open>\%+#x\<close> (the sign,
  \<^verbatim>\<open>0x\<close>, then lower-case hexadecimal digits).
\<close>

function digits_of :: "int \<Rightarrow> int \<Rightarrow> string" where
  "digits_of b n =
     (if n < b \<or> b < 2 then [''0123456789abcdef'' ! nat n]
      else digits_of b (n div b) @ [''0123456789abcdef'' ! nat (n mod b)])"
  by pat_completeness auto
termination
  by (relation "measure (\<lambda>(b, n). nat n)") (auto intro!: int_div_less_self)

declare digits_of.simps [simp del]

definition fmt_d :: "int \<Rightarrow> string" where
  "fmt_d i = (if i < 0 then CHR ''-'' # digits_of 10 (- i) else digits_of 10 i)"

definition fmt_plus_sharp_x :: "int \<Rightarrow> string" where
  "fmt_plus_sharp_x i =
     (if i < 0 then ''-0x'' @ digits_of 16 (- i) else ''+0x'' @ digits_of 16 i)"

definition Frame_String :: "Frame \<Rightarrow> string" where
  "Frame_String f =
     Function f @ ''('' @ strings_Join (Params f) '', '' @ '')'' @ [NL] @
     [TAB] @ File f @ '':'' @ fmt_d (Line f) @
     (if Entry f \<noteq> 0 then '' '' @ fmt_plus_sharp_x (Entry f) else [])"

definition CreatedBy_String :: "CreatedBy \<Rightarrow> string" where
  "CreatedBy_String c =
     ''created by '' @ Function_cb c @ [NL] @
     [TAB] @ File_cb c @ '':'' @ fmt_d (Line_cb c) @
     (if Entry_cb c \<noteq> 0 then '' '' @ fmt_plus_sharp_x (Entry_cb c) else [])"

text \<open>
  \<^verbatim>\<open>int(s.WaitTime.Minutes())\<close>. \<^verbatim>\<open>Minutes\<close> computes, in \<^verbatim>\<open>float64\<close>,
  \<^verbatim>\<open>float64(min) + float64(nsec)/(60*1e9)\<close> with \<^verbatim>\<open>min = d / Minute\<close> and
  \<^verbatim>\<open>nsec = d \% Minute\<close>, and the conversion to \<^verbatim>\<open>int\<close> truncates. Both integers are exact
  as \<^verbatim>\<open>float64\<close>, and the quotient is below 1 in absolute value, so the result is \<open>min\<close>
  or the next whole number away from zero. It is the latter exactly when the sum rounds
  to that number: with \<open>a = \<bar>min\<bar>\<close>, \<open>f = \<bar>nsec\<bar>\<close> and \<open>g / 2 ^ 54\<close> half the distance from
  \<open>a + 1\<close> to the \<^verbatim>\<open>float64\<close> before it, when the rounded quotient is at least
  \<open>1 - g / 2 ^ 54\<close>, that is when \<open>f / Minute\<close> exceeds \<open>1 - g / 2 ^ 54 - 1 / 2 ^ 54\<close> (the
  quotient never lies half-way between two \<^verbatim>\<open>float64\<close>, since \<open>Minute\<close> has an odd factor).
  For a whole number of minutes the result is that number.
\<close>

function top_power :: "int \<Rightarrow> int \<Rightarrow> int" where
  "top_power p n = (if 0 < p \<and> 2 * p \<le> n then top_power (2 * p) n else p)"
  by pat_completeness auto
termination
  by (relation "measure (\<lambda>(p, n). nat (n - p))") auto

declare top_power.simps [simp del]

definition Minutes_int :: "int \<Rightarrow> int" where
  "Minutes_int d =
     (let a = \<bar>d\<bar> div Minute;
          f = \<bar>d\<bar> mod Minute;
          P = top_power 1 (a + 1);
          g = (if a + 1 = P then P else 2 * P)
      in sgn d * (if Minute * (2 ^ 54 - g - 1) < f * 2 ^ 54 then a + 1 else a))"

definition Stack_String :: "Stack \<Rightarrow> string" where
  "Stack_String s =
     (let waitTime = Minutes_int (WaitTime s);
          state = (if waitTime \<noteq> 0 then State s @ '', '' @ fmt_d waitTime @ '' minutes''
                   else State s)
      in ''goroutine '' @ fmt_d (Number s) @ '' ['' @ state @ '']:'' @ [NL] @
         concat (map (\<lambda>f. Frame_String f @ [NL]) (Frames s)) @
         CreatedBy_String (CreatedBy s) @ [NL])"

section \<open>Filters\<close>

type_synonym Filter = "Stack \<Rightarrow> bool"

fun frames_matching :: "string \<Rightarrow> Frame list \<Rightarrow> bool" where
  "frames_matching pattern [] = False"
| "frames_matching pattern (f # fs) =
     (if strings_Contains (Function f) pattern \<or>
         strings_Contains (File f @ '':'' @ fmt_d (Line f)) pattern
      then True else frames_matching pattern fs)"

definition HasFrameMatching :: "string \<Rightarrow> Filter" where
  "HasFrameMatching pattern = (\<lambda>s. frames_matching pattern (Frames s))"

definition MatchState :: "string \<Rightarrow> Filter" where
  "MatchState st = (\<lambda>s. State s = st)"

definition TimeGreaterThan :: "int \<Rightarrow> Filter" where
  "TimeGreaterThan d = (\<lambda>s. d \<le> WaitTime s)"

definition Negate :: "Filter \<Rightarrow> Filter" where
  "Negate f = (\<lambda>s. \<not> f s)"

text \<open>\<^verbatim>\<open>ApplyFilters\<close>: the inner loop leaves for the next stack at the first filter
  that rejects; a stack that reaches the end of the filters is appended.\<close>

fun passes :: "Filter list \<Rightarrow> Stack \<Rightarrow> bool" where
  "passes [] s = True"
| "passes (f # fs) s = (if \<not> f s then False else passes fs s)"

fun ApplyFilters_from :: "Stack list \<Rightarrow> Stack list \<Rightarrow> Filter list \<Rightarrow> Stack list" where
  "ApplyFilters_from out [] filters = out"
| "ApplyFilters_from out (s # ss) filters =
     ApplyFilters_from (if passes filters s then out @ [s] else out) ss filters"

definition ApplyFilters :: "Stack list \<Rightarrow> Filter list \<Rightarrow> Stack list" where
  "ApplyFilters stks filters = ApplyFilters_from [] stks filters"

section \<open>Sorting\<close>

type_synonym StackCompFunc = "Stack \<Rightarrow> Stack \<Rightarrow> bool"

record StackSorter =
  Stacks :: "Stack list"
  CompFunc :: StackCompFunc

definition Len :: "StackSorter \<Rightarrow> nat" where
  "Len ss = length (Stacks ss)"


definition Swap :: "StackSorter \<Rightarrow> nat \<Rightarrow> nat \<Rightarrow> StackSorter" where
  "Swap ss i j = ss\<lparr>Stacks := (Stacks ss)[i := Stacks ss ! j, j := Stacks ss ! i]\<rparr>"









section \<open>Summaries and wait statistics\<close>

record summary =
  Function_sm :: string
  Count :: int

text \<open>
  \<^verbatim>\<open>summarize\<close>. \<open>counts\<close> is the Go map, a missing key reading as 0. \<^verbatim>\<open>s.Frames[0]\<close> panics
  on a stack without frames. \<^verbatim>\<open>sort.Sort\<close> is the parameter \<open>Sort\<close>, from the sorter to
  the slice it leaves.
\<close>

fun count_loop :: "(string \<Rightarrow> int) \<Rightarrow> Stack list \<Rightarrow> Stack list \<Rightarrow>
    ((string \<Rightarrow> int) \<times> Stack list) outcome" where
  "count_loop counts filtered [] = Returns (counts, filtered)"
| "count_loop counts filtered (s # ss) =
     (case Frames s of
        [] \<Rightarrow> Panics (IndexOutOfRange 0 0)
      | f0 # _ \<Rightarrow>
          count_loop (counts(Function f0 := counts (Function f0) + 1))
            (if counts (Function f0) = 0 then filtered @ [s] else filtered) ss)"

fun summaries_loop :: "(string \<Rightarrow> int) \<Rightarrow> summary list \<Rightarrow> Stack list \<Rightarrow> summary list outcome" where
  "summaries_loop counts summaries [] = Returns summaries"
| "summaries_loop counts summaries (s # ss) =
     (case Frames s of
        [] \<Rightarrow> Panics (IndexOutOfRange 0 0)
      | f0 # _ \<Rightarrow>
          summaries_loop counts
            (summaries @ [\<lparr>Function_sm = Function f0, Count = counts (Function f0)\<rparr>]) ss)"

definition summarize :: "(StackSorter \<Rightarrow> Stack list) \<Rightarrow> Stack list \<Rightarrow> summary list outcome" where
  "summarize Sort stks =
     (case count_loop (\<lambda>f. 0) [] stks of
        Panics e \<Rightarrow> Panics e
      | Returns (counts, filtered) \<Rightarrow>
          summaries_loop counts []
            (Sort \<lparr>Stacks = filtered,
                   CompFunc = (\<lambda>a b. counts (Function (Frames a ! 0)) <
                                       counts (Function (Frames b ! 0)))\<rparr>))"

record waitStats =
  Average :: int
  Max_ws :: int
  Min_ws :: int
  Median :: int

text \<open>
  \<^verbatim>\<open>compWaitStats\<close>. The loop keeps \<open>min\<close>, \<open>max\<close>, \<open>sum\<close> and the durations; \<open>min\<close> starts at
  0 and is replaced whenever it is 0. \<^verbatim>\<open>sort.Slice\<close> orders integers, for which every
  sorting algorithm gives the same slice. The division panics for no stacks.
\<close>

fun wait_loop :: "int \<Rightarrow> int \<Rightarrow> int \<Rightarrow> int list \<Rightarrow> Stack list \<Rightarrow> int \<times> int \<times> int \<times> int list" where
  "wait_loop mn mx sm durations [] = (mn, mx, sm, durations)"
| "wait_loop mn mx sm durations (s # ss) =
     wait_loop (if mn = 0 \<or> WaitTime s < mn then WaitTime s else mn)
               (if mx < WaitTime s then WaitTime s else mx)
               (wrap64 (sm + WaitTime s))
               (durations @ [WaitTime s]) ss"

definition compWaitStats :: "Stack list \<Rightarrow> waitStats outcome" where
  "compWaitStats stks =
     (case wait_loop 0 0 0 [] stks of
        (mn, mx, sm, durations) \<Rightarrow>
          if length durations = 0 then Panics DivideByZero
          else Returns \<lparr>Average = quot sm (int (length durations)), Max_ws = mx, Min_ws = mn,
                         Median = sort durations ! (length durations div 2)\<rparr>)"

section \<open>An invariant of the parser's loop\<close>

text \<open>An invariant of the loop while no "created by" line is read: the open stack and
  the emitted stacks hold the zero \<^verbatim>\<open>CreatedBy\<close>.\<close>

definition cb_zero :: "parser \<Rightarrow> bool" where
  "cb_zero p =
     ((case cur p of None \<Rightarrow> True | Some c \<Rightarrow> CreatedBy c = CreatedBy_zero) \<and>
      list_all (\<lambda>s. CreatedBy s = CreatedBy_zero) (stacks p))"

section \<open>Evaluation on concrete inputs\<close>

text \<open>The defining equations that the simplifier unfolds to run the model on a
  concrete input.\<close>

lemmas go_eval =
  strings_Split_def strings_Trim_def strings_HasPrefix_def strings_TrimPrefix_def
  strings_LastIndexByte_def strings_Fields_def Fields_from.simps leading_space_def
  unicode_spaces_def strconv_Atoi_def strconv_ParseInt_def strconv_ParseUint_def
  base_prefix_def digit_val_def maxUint64_def NL_def TAB_def CR_def wrap64_def Minute_def

lemmas parse_eval =
  ParseStacks_def Scanner_lines_def dropCR_def MaxScanTokenSize_def parser_init_def
  iteration_def strip_prefix_def header_line_def function_line_def parseEntryLine_def
  CreatedBy_zero_def

section \<open>The repository's test\<close>

text \<open>
  The case of \<^verbatim>\<open>TestParseStacks\<close>: on the input of the test the model returns the stack
  the test expects. Then three properties the program is meant to have: a filter
  negated twice is the filter; a header with the time and the thread annotation, in
  this order, gives both (in the other order the time is read from the annotation and
  the header is refused); an entry line with a hexadecimal entry address.
\<close>

lemma TestParseStacks_single_goroutine:
  "ParseStacks Compile
     (''\<newline>goroutine 85751948 [semacquire, 25 minutes]:\<newline>'' @
      ''sync.runtime_Semacquire(0xc099422a74)\<newline>'' @
      [TAB] @ ''/usr/local/go/src/runtime/sema.go:56 +0x45\<newline>'' @
      ''sync.(*WaitGroup).Wait(0xc099422a74)\<newline>'' @
      [TAB] @ ''/usr/local/go/src/sync/waitgroup.go:130 +0x65\<newline>'' @
      ''github.com/libp2p/go-libp2p-swarm.(*Swarm).notifyAll(0xc000783380, 0xc01a77d0c0)\<newline>'' @
      [TAB] @ ''pkg/mod/github.com/libp2p/go-libp2p-swarm@v0.5.3/swarm.go:553 +0x13e\<newline>'' @
      ''github.com/libp2p/go-libp2p-swarm.(*Conn).doClose.func1(0xc06f36f4d0)\<newline>'' @
      [TAB] @ ''pkg/mod/github.com/libp2p/go-libp2p-swarm@v0.5.3/swarm_conn.go:84 +0xa7\<newline>'' @
      ''created by github.com/libp2p/go-libp2p-swarm.(*Conn).doClose\<newline>'' @
      [TAB] @ ''pkg/mod/github.com/libp2p/go-libp2p-swarm@v0.5.3/swarm_conn.go:79 +0x16a\<newline>'' @
      ''\<newline>'') [] =
   Returns
     ([\<lparr>Number = 85751948, State = ''semacquire'', WaitTime = 25 * Minute,
        Frames =
          [\<lparr>Function = ''sync.runtime_Semacquire'', Params = [''0xc099422a74''],
            File = ''/usr/local/go/src/runtime/sema.go'', Line = 56, Entry = 69\<rparr>,
           \<lparr>Function = ''sync.(*WaitGroup).Wait'', Params = [''0xc099422a74''],
            File = ''/usr/local/go/src/sync/waitgroup.go'', Line = 130, Entry = 101\<rparr>,
           \<lparr>Function = ''github.com/libp2p/go-libp2p-swarm.(*Swarm).notifyAll'',
            Params = [''0xc000783380'', ''0xc01a77d0c0''],
            File = ''pkg/mod/github.com/libp2p/go-libp2p-swarm@v0.5.3/swarm.go'',
            Line = 553, Entry = 318\<rparr>,
           \<lparr>Function = ''github.com/libp2p/go-libp2p-swarm.(*Conn).doClose.func1'',
            Params = [''0xc06f36f4d0''],
            File = ''pkg/mod/github.com/libp2p/go-libp2p-swarm@v0.5.3/swarm_conn.go'',
            Line = 84, Entry = 167\<rparr>],
        ThreadLocked = False,
        CreatedBy =
          \<lparr>Function_cb = ''github.com/libp2p/go-libp2p-swarm.(*Conn).doClose'',
           File_cb = ''pkg/mod/github.com/libp2p/go-libp2p-swarm@v0.5.3/swarm_conn.go'',
           Line_cb = 79, Entry_cb = 362\<rparr>\<rparr>], None)"
  by (simp add: go_eval parse_eval)

lemma Negate_Negate: "Negate (Negate f) = f"
  by (simp add: Negate_def)

lemma header_annotations:
  "header_line ''goroutine 1 [chan receive, 3 minutes, locked to thread]:'' =
     Returns (Inr \<lparr>Number = 1, State = ''chan receive'', WaitTime = 3 * Minute, Frames = [],
                   ThreadLocked = True, CreatedBy = CreatedBy_zero\<rparr>) \<and>
   header_line ''goroutine 1 [chan receive, locked to thread, 3 minutes]:'' =
     Returns (Inl (WeirdTime '' locked to thread''))"
  by (simp add: go_eval parse_eval)

lemma parseEntryLine_hex_entry: "parseEntryLine ''/x/y.go:42 0x1a'' = Inr (''/x/y.go'', 42, 26)"
  by (simp add: go_eval parse_eval)

section \<open>Properties of the entry-line parser\<close>

lemma genSplit_not_Nil: "genSplit sep acc s \<noteq> []"
  by (induction sep acc s rule: genSplit.induct) auto

lemma length_genSplit_char: "length (genSplit [c] acc s) = Suc (count_list s c)"
  by (induction s arbitrary: acc) auto

lemma length_Split_char: "length (strings_Split s [c]) = Suc (count_list s c)"
  by (simp add: strings_Split_def length_genSplit_char)

text \<open>
  C7 (entry lines without exactly one colon). A line with no colon, or with more than
  one, makes \<^verbatim>\<open>parseEntryLine\<close> fail. The error is the same for every such line: its
  message formats the \<^verbatim>\<open>int64\<close> result \<^verbatim>\<open>line\<close>, which is 0 at that point, so the
  offending input is not in it.
\<close>

theorem parseEntryLine_colon_count:
  "count_list s (CHR '':'') \<noteq> 1 \<Longrightarrow> parseEntryLine s = Inl (ExpectedColon 0)"
  by (simp add: parseEntryLine_def length_Split_char Let_def)

theorem parseEntryLine_colon_count_witness:
  "count_list ''/a/b.go 10'' (CHR '':'') \<noteq> 1 \<and>
   parseEntryLine ''/a/b.go 10'' = Inl (ExpectedColon 0) \<and>
   count_list ''C:/a/b.go:10'' (CHR '':'') \<noteq> 1 \<and>
   parseEntryLine ''C:/a/b.go:10'' = Inl (ExpectedColon 0)"
proof -
  have none: "count_list ''/a/b.go 10'' (CHR '':'') \<noteq> 1" by simp
  have two: "count_list ''C:/a/b.go:10'' (CHR '':'') \<noteq> 1" by simp
  show ?thesis
    using none two parseEntryLine_colon_count [OF none] parseEntryLine_colon_count [OF two]
    by blast
qed

section \<open>Properties of the filters\<close>

lemma passes_list_all: "passes filters = (\<lambda>s. list_all (\<lambda>f. f s) filters)"
proof
  fix s show "passes filters s = list_all (\<lambda>f. f s) filters"
    by (induction filters) auto
qed

lemma ApplyFilters_from_filter:
  "ApplyFilters_from out stks filters = out @ filter (passes filters) stks"
  by (induction stks arbitrary: out) auto

lemma ApplyFilters_filter: "ApplyFilters stks filters = filter (passes filters) stks"
  by (simp add: ApplyFilters_def ApplyFilters_from_filter)

text \<open>
  C9 (filters are a conjunction). \<^verbatim>\<open>ApplyFilters\<close> returns, in the order of the input,
  the stacks that satisfy every filter of the list. Hence the order of two filters does
  not matter, filtering the result again by the same filters changes nothing, and
  neither does filtering the result of \<open>[f1, f2]\<close> again by \<open>f1\<close>.
\<close>

theorem ApplyFilters_conjunction:
  "ApplyFilters stks filters = filter (\<lambda>s. list_all (\<lambda>f. f s) filters) stks \<and>
   ApplyFilters stks [f1, f2] = ApplyFilters stks [f2, f1] \<and>
   ApplyFilters (ApplyFilters stks filters) filters = ApplyFilters stks filters \<and>
   ApplyFilters (ApplyFilters stks [f1]) [f1] = ApplyFilters stks [f1] \<and>
   ApplyFilters (ApplyFilters stks [f1, f2]) [f1] = ApplyFilters stks [f1, f2]"
proof -
  have all: "ApplyFilters stks fs = filter (\<lambda>s. list_all (\<lambda>f. f s) fs) stks" for stks fs
    by (simp add: ApplyFilters_filter passes_list_all)
  have swap: "ApplyFilters stks [f1, f2] = ApplyFilters stks [f2, f1]"
    by (simp add: all conj_commute)
  have idem: "ApplyFilters (ApplyFilters stks fs) fs = ApplyFilters stks fs" for fs
    by (simp add: all)
  have again: "ApplyFilters (ApplyFilters stks [f1, f2]) [f1] = ApplyFilters stks [f1, f2]"
    by (simp add: all) (metis (mono_tags, lifting) filter_cong)
  show ?thesis
    using all [of stks filters] swap idem [of filters] idem [of "[f1]"] again by simp
qed

theorem ApplyFilters_conjunction_witness:
  "ApplyFilters
     [\<lparr>Number = 1, State = ''select'', WaitTime = 0, Frames = [], ThreadLocked = False,
       CreatedBy = CreatedBy_zero\<rparr>,
      \<lparr>Number = 2, State = ''running'', WaitTime = 2 * Minute, Frames = [],
       ThreadLocked = False, CreatedBy = CreatedBy_zero\<rparr>,
      \<lparr>Number = 3, State = ''select'', WaitTime = 5 * Minute, Frames = [],
       ThreadLocked = False, CreatedBy = CreatedBy_zero\<rparr>]
     [MatchState ''select'', TimeGreaterThan Minute]
   = [\<lparr>Number = 3, State = ''select'', WaitTime = 5 * Minute, Frames = [],
       ThreadLocked = False, CreatedBy = CreatedBy_zero\<rparr>]"
proof -
  let ?a = "\<lparr>Number = 1, State = ''select'', WaitTime = 0, Frames = [], ThreadLocked = False,
       CreatedBy = CreatedBy_zero\<rparr>"
  let ?b = "\<lparr>Number = 2, State = ''running'', WaitTime = 2 * Minute, Frames = [],
       ThreadLocked = False, CreatedBy = CreatedBy_zero\<rparr>"
  let ?c = "\<lparr>Number = 3, State = ''select'', WaitTime = 5 * Minute, Frames = [],
       ThreadLocked = False, CreatedBy = CreatedBy_zero\<rparr>"
  let ?fs = "[MatchState ''select'', TimeGreaterThan Minute]"
  from ApplyFilters_conjunction [of "[?a, ?b, ?c]" ?fs]
  have "ApplyFilters [?a, ?b, ?c] ?fs = filter (\<lambda>s. list_all (\<lambda>f. f s) ?fs) [?a, ?b, ?c]"
    by (rule conjunct1)
  also have "\<dots> = [?c]"
    by (simp add: MatchState_def TimeGreaterThan_def Minute_def)
  finally show ?thesis .
qed

section \<open>Properties of the summaries and the wait statistics\<close>

lemma count_loop_frameless:
  "s \<in> set stks \<Longrightarrow> Frames s = [] \<Longrightarrow>
   count_loop counts filtered stks = Panics (IndexOutOfRange 0 0)"
  by (induction stks arbitrary: counts filtered) (auto split: list.splits)

text \<open>
  C1 (stacks without frames in a summary). When one of the stacks has no frame,
  \<^verbatim>\<open>summarize\<close> does not return: \<^verbatim>\<open>s.Frames[0]\<close> panics with an index out of range in the
  counting loop, whatever the other stacks are and before anything is sorted. Nothing
  recovers the panic, neither in \<^verbatim>\<open>summarize\<close> nor in its callers.
\<close>

theorem summarize_frameless:
  "s \<in> set stks \<Longrightarrow> Frames s = [] \<Longrightarrow> summarize Sort stks = Panics (IndexOutOfRange 0 0)"
  by (simp add: summarize_def count_loop_frameless)

theorem summarize_frameless_witness:
  "ParseStacks (\<lambda>p. None) ''goroutine 1 [running]:\<newline>\<newline>'' [] =
     Returns ([\<lparr>Number = 1, State = ''running'', WaitTime = 0, Frames = [],
                ThreadLocked = False, CreatedBy = CreatedBy_zero\<rparr>], None) \<and>
   summarize Stacks
     [\<lparr>Number = 1, State = ''running'', WaitTime = 0, Frames = [], ThreadLocked = False,
       CreatedBy = CreatedBy_zero\<rparr>] = Panics (IndexOutOfRange 0 0)"
proof -
  let ?s = "\<lparr>Number = 1, State = ''running'', WaitTime = 0, Frames = [],
             ThreadLocked = False, CreatedBy = CreatedBy_zero\<rparr>"
  have parsed: "ParseStacks (\<lambda>p. None) ''goroutine 1 [running]:\<newline>\<newline>'' [] =
      Returns ([?s], None)"
    by (simp add: go_eval parse_eval)
  have "?s \<in> set [?s]" and "Frames ?s = []" by simp_all
  then have "summarize Stacks [?s] = Panics (IndexOutOfRange 0 0)"
    by (rule summarize_frameless)
  with parsed show ?thesis by simp
qed

text \<open>
  C5 (minimum, mean and median of a class). For the two stacks below, waiting 0 and 5
  minutes, \<^verbatim>\<open>compWaitStats\<close> returns 5 minutes as the minimum: the loop takes a minimum
  of 0 for "not set yet" and replaces it by the next duration. The mean, 2.5 minutes,
  is below that minimum.
\<close>

theorem compWaitStats_zero_wait:
  "compWaitStats
     [\<lparr>Number = 1, State = ''select'', WaitTime = 0, Frames = [], ThreadLocked = False,
       CreatedBy = CreatedBy_zero\<rparr>,
      \<lparr>Number = 2, State = ''select'', WaitTime = 5 * Minute, Frames = [],
       ThreadLocked = False, CreatedBy = CreatedBy_zero\<rparr>]
   = Returns \<lparr>Average = 150000000000, Max_ws = 300000000000, Min_ws = 300000000000,
              Median = 300000000000\<rparr>"
  by (simp add: compWaitStats_def Minute_def wrap64_def quot_def)

section \<open>Properties of the parser\<close>

text \<open>One turn of the loop, branch by branch. \<open>line\<close> is the line after the prefix has been
  stripped.\<close>

lemma iteration_header:
  "strip_prefix re raw = Returns line \<Longrightarrow> strings_HasPrefix line ''goroutine'' \<Longrightarrow>
   iteration re p raw rest =
     (case header_line line of
        Panics e \<Rightarrow> Panicked e
      | Returns (Inl e) \<Rightarrow> ReturnErr e
      | Returns (Inr st) \<Rightarrow>
          Next (p\<lparr>stacks := (case cur p of Some c \<Rightarrow> stacks p @ [c] | None \<Rightarrow> stacks p),
                  cur := Some st\<rparr>))"
  by (simp add: iteration_def Let_def split: option.splits outcome.splits sum.splits)

lemma iteration_blank:
  "strip_prefix re raw = Returns [] \<Longrightarrow>
   iteration re p raw rest =
     Next (p\<lparr>stacks := (case cur p of Some c \<Rightarrow> stacks p @ [c] | None \<Rightarrow> stacks p),
             cur := None\<rparr>)"
  by (simp add: iteration_def strings_HasPrefix_def split: option.splits)

lemma iteration_created_by:
  "strip_prefix re raw = Returns line \<Longrightarrow>
   \<not> strings_HasPrefix line ''goroutine'' \<Longrightarrow> line \<noteq> [] \<Longrightarrow>
   strings_HasPrefix line ''created by'' \<Longrightarrow>
   iteration re p raw rest =
     (case rest of
        [] \<Rightarrow> ReturnErr (NoFileInfo (lineNo p))
      | following # _ \<Rightarrow>
          (case parseEntryLine following of
             Inl e \<Rightarrow> ReturnErr e
           | Inr (file, ln, entry) \<Rightarrow>
               (case cur p of
                  None \<Rightarrow> Panicked NilDereference
                | Some c \<Rightarrow>
                    NextAfter (p\<lparr>cur := Some (c\<lparr>CreatedBy :=
                      \<lparr>Function_cb = strings_TrimPrefix line ''created by '', File_cb = file,
                       Line_cb = ln, Entry_cb = entry\<rparr>\<rparr>)\<rparr>))))"
  by (simp add: iteration_def Let_def)

lemma iteration_function:
  "strip_prefix re raw = Returns line \<Longrightarrow>
   \<not> strings_HasPrefix line ''goroutine'' \<Longrightarrow> line \<noteq> [] \<Longrightarrow>
   \<not> strings_HasPrefix line ''created by'' \<Longrightarrow> frame p = None \<Longrightarrow>
   iteration re p raw rest =
     (case function_line line of
        Panics e \<Rightarrow> Panicked e
      | Returns f \<Rightarrow> Next (p\<lparr>frame := Some f\<rparr>))"
  by (simp add: iteration_def)

lemma iteration_entry:
  "strip_prefix re raw = Returns line \<Longrightarrow>
   \<not> strings_HasPrefix line ''goroutine'' \<Longrightarrow> line \<noteq> [] \<Longrightarrow>
   \<not> strings_HasPrefix line ''created by'' \<Longrightarrow> frame p = Some f \<Longrightarrow>
   iteration re p raw rest =
     (case parseEntryLine line of
        Inl e \<Rightarrow> ReturnErr e
      | Inr (file, ln, entry) \<Rightarrow>
          (case cur p of
             None \<Rightarrow> Panicked NilDereference
           | Some c \<Rightarrow>
               Next (p\<lparr>cur := Some (c\<lparr>Frames := Frames c @
                        [f\<lparr>File := file, Line := ln, Entry := entry\<rparr>]\<rparr>),
                      frame := None\<rparr>)))"
  by (simp add: iteration_def)

lemma iteration_strip_panics:
  "strip_prefix re raw = Panics e \<Longrightarrow> iteration re p raw rest = Panicked e"
  by (simp add: iteration_def)

text \<open>The five ways a turn can go, as a case distinction.\<close>

lemma iteration_branches:
  obtains
    (strip_panics) e where "strip_prefix re raw = Panics e"
  | (header) line where "strip_prefix re raw = Returns line" "strings_HasPrefix line ''goroutine''"
  | (blank) "strip_prefix re raw = Returns []"
  | (created_by) line where "strip_prefix re raw = Returns line"
      "\<not> strings_HasPrefix line ''goroutine''" "line \<noteq> []" "strings_HasPrefix line ''created by''"
  | (first_line) line where "strip_prefix re raw = Returns line"
      "\<not> strings_HasPrefix line ''goroutine''" "line \<noteq> []"
      "\<not> strings_HasPrefix line ''created by''" "frame p = None"
  | (second_line) line f where "strip_prefix re raw = Returns line"
      "\<not> strings_HasPrefix line ''goroutine''" "line \<noteq> []"
      "\<not> strings_HasPrefix line ''created by''" "frame p = Some f"
  by (cases "strip_prefix re raw"; cases "frame p") blast+

lemma iteration_lineNo:
  assumes "iteration re p raw rest = Next p' \<or> iteration re p raw rest = NextAfter p'"
  shows "lineNo p' = lineNo p"
proof (cases rule: iteration_branches [where re = re and raw = raw and p = p])
  case (strip_panics e)
  with assms show ?thesis by (simp add: iteration_strip_panics)
next
  case (header line)
  with assms show ?thesis
    by (auto simp: iteration_header split: outcome.splits sum.splits)
next
  case blank
  with assms show ?thesis by (auto simp: iteration_blank)
next
  case (created_by line)
  with assms show ?thesis
    by (auto simp: iteration_created_by split: list.splits sum.splits option.splits)
next
  case (first_line line)
  with assms show ?thesis
    by (auto simp: iteration_function split: outcome.splits)
next
  case (second_line line f)
  with assms show ?thesis
    by (auto simp: iteration_entry split: sum.splits option.splits)
qed

lemma iteration_NextAfter_rest:
  "iteration re p raw rest = NextAfter p' \<Longrightarrow> rest \<noteq> []"
  by (cases rule: iteration_branches [where re = re and raw = raw and p = p])
     (auto simp: iteration_strip_panics iteration_header iteration_blank iteration_created_by
        iteration_function iteration_entry
        split: outcome.splits sum.splits list.splits option.splits)

lemma scan_loop_exit:
  "scan_loop re p lines = (n, ex) \<Longrightarrow>
     (\<exists>sts. ex = Returns (sts, None)) \<or>
     (lineNo p < n \<and> n \<le> lineNo p + length lines \<and>
      ((\<exists>e. ex = Returns ([], Some e)) \<or> (\<exists>pn. ex = Panics pn)))"
proof (induction re p lines arbitrary: n ex rule: scan_loop.induct)
  case (1 re p)
  then show ?case by auto
next
  case (2 re p raw rest)
  let ?p = "p\<lparr>lineNo := lineNo p + 1\<rparr>"
  show ?case
  proof (cases "iteration re ?p raw rest")
    case (Next p')
    then have ln: "lineNo p' = lineNo p + 1"
      using iteration_lineNo [of re ?p raw rest p'] by simp
    from Next "2.prems" have "scan_loop re p' rest = (n, ex)" by simp
    from "2.IH"(1) [OF Next this] ln show ?thesis by auto
  next
    case (NextAfter p')
    then have ln: "lineNo p' = lineNo p + 1"
      using iteration_lineNo [of re ?p raw rest p'] by simp
    from NextAfter have ne: "rest \<noteq> []" by (rule iteration_NextAfter_rest)
    from NextAfter "2.prems" have "scan_loop re p' (tl rest) = (n, ex)" by simp
    from "2.IH"(2) [OF NextAfter this] ln ne show ?thesis by (cases rest) auto
  next
    case (ReturnErr e)
    with "2.prems" show ?thesis by auto
  next
    case (Panicked e)
    with "2.prems" show ?thesis by auto
  qed
qed


lemma ParseStacks_cases:
  "ParseStacks Compile r linePrefix =
     (if linePrefix \<noteq> [] \<and> Compile linePrefix = None then Returns ([], Some CompileFailed)
      else deferred (fst (scan_loop (if linePrefix \<noteq> [] then Compile linePrefix else None)
                            parser_init (Scanner_lines r)))
                    (snd (scan_loop (if linePrefix \<noteq> [] then Compile linePrefix else None)
                            parser_init (Scanner_lines r))))"
  by (auto simp: ParseStacks_def split: option.splits prod.splits)

text \<open>The state the loop reaches after some lines, and the shape of a block of
  lines.\<close>

lemma iteration_Next_any_rest:
  "iteration re p raw rest = Next p' \<Longrightarrow> iteration re p raw rest' = Next p'"
  by (cases rule: iteration_branches [where re = re and raw = raw and p = p])
     (auto simp: iteration_strip_panics iteration_header iteration_blank iteration_created_by
        iteration_function iteration_entry
        split: outcome.splits sum.splits list.splits option.splits)

lemma iteration_rest_append:
  "rest \<noteq> [] \<Longrightarrow> iteration re p raw (rest @ later) = iteration re p raw rest"
  by (cases rest) (auto simp: iteration_def Let_def split: outcome.splits)

lemma run_append:
  "run re p pre = Some p' \<Longrightarrow> scan_loop re p (pre @ later) = scan_loop re p' later"
proof (induction re p pre rule: run.induct)
  case (1 re p)
  then show ?case by simp
next
  case (2 re p raw rest)
  let ?p = "p\<lparr>lineNo := lineNo p + 1\<rparr>"
  show ?case
  proof (cases "iteration re ?p raw rest")
    case (Next q)
    then have "iteration re ?p raw (rest @ later) = Next q" by (rule iteration_Next_any_rest)
    with Next "2.prems" "2.IH"(1) show ?thesis by simp
  next
    case (NextAfter q)
    with "2.prems" have ne: "rest \<noteq> []" by (auto split: if_splits)
    with NextAfter have "iteration re ?p raw (rest @ later) = NextAfter q"
      by (simp add: iteration_rest_append)
    with NextAfter ne "2.prems" "2.IH"(2) show ?thesis by simp
  next
    case (ReturnErr e)
    with "2.prems" show ?thesis by simp
  next
    case (Panicked e)
    with "2.prems" show ?thesis by simp
  qed
qed

lemma kind_cases:
  "kind re raw = Header \<longleftrightarrow> (\<exists>line. strip_prefix re raw = Returns line \<and> strings_HasPrefix line ''goroutine'')"
  "kind re raw = Blank \<longleftrightarrow> strip_prefix re raw = Returns []"
  "kind re raw = CreatedByLine \<longleftrightarrow>
     (\<exists>line. strip_prefix re raw = Returns line \<and> \<not> strings_HasPrefix line ''goroutine'' \<and>
        line \<noteq> [] \<and> strings_HasPrefix line ''created by'')"
  "kind re raw = FrameLine \<longleftrightarrow>
     (\<exists>line. strip_prefix re raw = Returns line \<and> \<not> strings_HasPrefix line ''goroutine'' \<and>
        line \<noteq> [] \<and> \<not> strings_HasPrefix line ''created by'')"
  "kind re raw = Unreadable \<longleftrightarrow> (\<exists>e. strip_prefix re raw = Panics e)"
  by (auto simp: kind_def strings_HasPrefix_def split: outcome.splits)

lemma header_line_opens:
  "header_line line = Returns (Inr st) \<Longrightarrow> Frames st = [] \<and> CreatedBy st = CreatedBy_zero"
  by (auto simp: header_line_def Let_def split: if_splits sum.splits prod.splits)

lemma iteration_stacks_prefix:
  assumes "iteration re q raw rest = Next q' \<or> iteration re q raw rest = NextAfter q'"
  shows "prefix (stacks q) (stacks q')"
  using assms
  by (cases rule: iteration_branches [where re = re and raw = raw and p = q])
     (auto simp: iteration_strip_panics iteration_header iteration_blank iteration_created_by
        iteration_function iteration_entry
        split: outcome.splits sum.splits list.splits option.splits)

lemma scan_loop_stacks_prefix:
  "scan_loop re q lines = (n, Returns (sts, None)) \<Longrightarrow> prefix (stacks q) sts"
proof (induction re q lines arbitrary: n sts rule: scan_loop.induct)
  case (1 re p)
  then show ?case by (auto split: option.splits)
next
  case (2 re p raw rest)
  let ?p = "p\<lparr>lineNo := lineNo p + 1\<rparr>"
  show ?case
  proof (cases "iteration re ?p raw rest")
    case (Next q)
    then have "prefix (stacks p) (stacks q)"
      using iteration_stacks_prefix [of re ?p raw rest q] by simp
    moreover from Next "2.prems" have "prefix (stacks q) sts"
      using "2.IH"(1) [OF Next] by simp
    ultimately show ?thesis by (rule prefix_order.trans)
  next
    case (NextAfter q)
    then have "prefix (stacks p) (stacks q)"
      using iteration_stacks_prefix [of re ?p raw rest q] by simp
    moreover from NextAfter "2.prems" have "prefix (stacks q) sts"
      using "2.IH"(2) [OF NextAfter] by simp
    ultimately show ?thesis by (rule prefix_order.trans)
  next
    case (ReturnErr e)
    with "2.prems" show ?thesis by simp
  next
    case (Panicked e)
    with "2.prems" show ?thesis by simp
  qed
qed

lemma scan_loop_frame_lines:
  "list_all (\<lambda>l. kind re l = FrameLine) body \<Longrightarrow>
   scan_loop re q (body @ post) = (n, Returns (sts, None)) \<Longrightarrow> cur q = Some c \<Longrightarrow>
   \<exists>q' c'. scan_loop re q' post = (n, Returns (sts, None)) \<and> stacks q' = stacks q \<and>
     cur q' = Some c' \<and> c'\<lparr>Frames := []\<rparr> = c\<lparr>Frames := []\<rparr>"
proof (induction body arbitrary: q c)
  case Nil
  then show ?case by auto
next
  case (Cons raw body)
  let ?q = "q\<lparr>lineNo := lineNo q + 1\<rparr>"
  from Cons.prems(1) obtain line where line: "strip_prefix re raw = Returns line"
      "\<not> strings_HasPrefix line ''goroutine''" "line \<noteq> []"
      "\<not> strings_HasPrefix line ''created by''"
    and body: "list_all (\<lambda>l. kind re l = FrameLine) body"
    by (auto simp: kind_cases)
  show ?case
  proof (cases "frame q")
    case None
    with line have it: "iteration re ?q raw (body @ post) =
        (case function_line line of Panics e \<Rightarrow> Panicked e
         | Returns f \<Rightarrow> Next (?q\<lparr>frame := Some f\<rparr>))"
      by (simp add: iteration_function cong: outcome.case_cong)
    with Cons.prems(2) obtain f where f: "function_line line = Returns f"
      by (cases "function_line line") auto
    with it Cons.prems(2)
    have "scan_loop re (?q\<lparr>frame := Some f\<rparr>) (body @ post) = (n, Returns (sts, None))"
      by simp
    from Cons.IH [OF body this, of c] Cons.prems(3) show ?thesis by auto
  next
    case (Some f)
    with line have it: "iteration re ?q raw (body @ post) =
        (case parseEntryLine line of
           Inl e \<Rightarrow> ReturnErr e
         | Inr (file, ln, entry) \<Rightarrow>
             (case cur ?q of
                None \<Rightarrow> Panicked NilDereference
              | Some c \<Rightarrow>
                  Next (?q\<lparr>cur := Some (c\<lparr>Frames := Frames c @
                           [f\<lparr>File := file, Line := ln, Entry := entry\<rparr>]\<rparr>),
                         frame := None\<rparr>)))"
      by (simp add: iteration_entry cong: sum.case_cong option.case_cong prod.case_cong)
    with Cons.prems(2) obtain fl ln entry where
      entry: "parseEntryLine line = Inr (fl, ln, entry)"
      by (cases "parseEntryLine line") auto
    let ?c = "c\<lparr>Frames := Frames c @ [f\<lparr>File := fl, Line := ln, Entry := entry\<rparr>]\<rparr>"
    from it entry Cons.prems(2,3)
    have "scan_loop re (?q\<lparr>cur := Some ?c, frame := None\<rparr>) (body @ post) =
        (n, Returns (sts, None))"
      by simp
    from Cons.IH [OF body this, of ?c] show ?thesis by auto
  qed
qed

lemma scan_loop_closing:
  assumes loop: "scan_loop re q post = (n, Returns (sts, None))"
    and closes: "post = [] \<or> kind re (hd post) = Blank \<or> kind re (hd post) = Header"
    and open_stack: "cur q = Some c"
  shows "length (stacks q) < length sts \<and> sts ! length (stacks q) = c"
proof (cases post)
  case Nil
  with loop open_stack show ?thesis by auto
next
  case (Cons raw rest)
  let ?q = "q\<lparr>lineNo := lineNo q + 1\<rparr>"
  from Cons closes have "kind re raw = Blank \<or> kind re raw = Header" by simp
  then have "\<exists>q'. iteration re ?q raw rest = Next q' \<and> stacks q' = stacks q @ [c] \<and>
      scan_loop re q' rest = (n, Returns (sts, None))"
  proof
    assume "kind re raw = Blank"
    then have "strip_prefix re raw = Returns []" by (simp add: kind_cases)
    with loop open_stack Cons show ?thesis by (simp add: iteration_blank)
  next
    assume "kind re raw = Header"
    then obtain line where line: "strip_prefix re raw = Returns line"
        "strings_HasPrefix line ''goroutine''"
      by (auto simp: kind_cases)
    with loop open_stack Cons show ?thesis
      by (auto simp: iteration_header split: outcome.splits sum.splits)
  qed
  then obtain q' where q': "stacks q' = stacks q @ [c]"
      "scan_loop re q' rest = (n, Returns (sts, None))"
    by blast
  from scan_loop_stacks_prefix [OF q'(2)] q'(1) have "prefix (stacks q @ [c]) sts" by simp
  then obtain later where "sts = stacks q @ [c] @ later" by (auto simp: prefix_def)
  then show ?thesis by (simp add: nth_append)
qed







lemma opened_updates [simp]:
  "opened (c\<lparr>Frames := fs\<rparr>) = opened c" "opened (c\<lparr>CreatedBy := cb\<rparr>) = opened c"
  by (simp_all add: opened_def)








lemma raw_lines_line:
  "NL \<notin> set l \<Longrightarrow> raw_lines acc (l @ NL # rest) = (rev acc @ l) # raw_lines [] rest"
  by (induction l arbitrary: acc) auto






text \<open>A line of \<^verbatim>\<open>MaxScanTokenSize\<close> bytes or more ends the input for the loop: the lines
  after it are not read, and no error is returned for them.\<close>

lemma ParseStacks_long_line:
  "NL \<notin> set l \<Longrightarrow> MaxScanTokenSize \<le> length l \<Longrightarrow>
   ParseStacks Compile (l @ NL # rest) [] = Returns ([], None)"
  by (simp add: ParseStacks_def Scanner_lines_def raw_lines_line parser_init_def)

text \<open>
  C3 (the first example). The input of the example parses to one stack, number 5, state
  "running", no wait time, with one frame: function "foo.Bar", file "/a/b.go", line 10.
  The parameter list of the frame is not empty: it holds one parameter, the empty
  string, since \<^verbatim>\<open>strings.Split\<close> of the empty text between the parentheses gives
  one empty piece.
\<close>

theorem ParseStacks_example1:
  "ParseStacks Compile
     (''goroutine 5 [running]:\<newline>foo.Bar()\<newline>'' @ [TAB] @ ''/a/b.go:10\<newline>\<newline>'') [] =
   Returns ([\<lparr>Number = 5, State = ''running'', WaitTime = 0,
               Frames = [\<lparr>Function = ''foo.Bar'', Params = [[]], File = ''/a/b.go'',
                          Line = 10, Entry = 0\<rparr>],
               ThreadLocked = False, CreatedBy = CreatedBy_zero\<rparr>], None)"
  by (simp add: go_eval parse_eval)

text \<open>The example has no stack whose frame has an empty parameter list.\<close>

theorem ParseStacks_example1_params_not_empty:
  "\<not> (\<exists>s f. ParseStacks (\<lambda>p. None)
          (''goroutine 5 [running]:\<newline>foo.Bar()\<newline>'' @ [TAB] @ ''/a/b.go:10\<newline>\<newline>'') [] =
            Returns ([s], None) \<and>
          Number s = 5 \<and> State s = ''running'' \<and> WaitTime s = 0 \<and> Frames s = [f] \<and>
          Function f = ''foo.Bar'' \<and> Params f = [] \<and> File f = ''/a/b.go'' \<and> Line f = 10)"
  by (auto simp: go_eval parse_eval)

lemma LastIndexByte_from_snoc:
  "LastIndexByte_from i (xs @ [x]) c =
     (if x = c then Some (i + length xs) else LastIndexByte_from i xs c)"
  by (induction xs arbitrary: i) (auto split: option.splits)

lemma LastIndexByte_from_bound:
  "LastIndexByte_from i xs c = Some j \<Longrightarrow> j < i + length xs"
  by (induction xs arbitrary: i) (fastforce split: option.splits if_splits)+

lemma function_line_panics_iff:
  assumes "line \<noteq> []"
  shows "(\<exists>e. function_line line = Panics e) \<longleftrightarrow> last line = CHR ''(''"
proof -
  from assms obtain xs x where line: "line = xs @ [x]"
    by (metis append_butlast_last_id)
  show ?thesis
  proof (cases "x = CHR ''(''")
    case True
    with line show ?thesis
      by (simp add: function_line_def strings_LastIndexByte_def LastIndexByte_from_snoc)
  next
    case False
    show ?thesis
    proof (cases "LastIndexByte_from 0 xs (CHR ''('')")
      case None
      with False line show ?thesis
        by (simp add: function_line_def strings_LastIndexByte_def LastIndexByte_from_snoc)
    next
      case (Some n)
      then have "n < length xs" using LastIndexByte_from_bound [of 0 xs "CHR ''(''" n] by simp
      with Some False line show ?thesis
        by (simp add: function_line_def strings_LastIndexByte_def LastIndexByte_from_snoc)
    qed
  qed
qed

lemma scan_loop_blanks:
  "list_all (\<lambda>l. strip_prefix re l = Returns []) blanks \<Longrightarrow> cur q = None \<Longrightarrow>
   scan_loop re q (blanks @ later) = scan_loop re (q\<lparr>lineNo := lineNo q + length blanks\<rparr>) later"
proof (induction blanks arbitrary: q)
  case Nil
  then show ?case by simp
next
  case (Cons b blanks)
  let ?q = "q\<lparr>lineNo := lineNo q + 1\<rparr>"
  from Cons.prems have "iteration re ?q b (blanks @ later) = Next ?q"
    by (simp add: iteration_blank)
  moreover from Cons.prems have "scan_loop re ?q (blanks @ later) =
      scan_loop re (?q\<lparr>lineNo := lineNo ?q + length blanks\<rparr>) later"
    by (intro Cons.IH) simp_all
  ultimately show ?case by simp
qed

text \<open>
  C6 (a stray line while no stack is open). Let a line, after the prefix is stripped, be
  neither blank, nor a header, nor a "created by" line, and let no stack be open. If no
  frame is pending, the turn raises no error and changes neither the emitted stacks nor
  the open stack, but the line becomes the pending frame (unless its last byte is an
  opening parenthesis: then the turn panics). If a frame is pending, as after such a
  line, the turn ends the parse: with the error of the entry-line parser, or with the
  panic of appending to the stack that is not there. A turn on a blank line, a header
  line or a "created by" line, when the loop goes on after it, keeps the pending frame.
  With a frame pending, a line that is neither blank, nor a header, nor a "created by"
  line is read as the entry line of that frame, whatever line the frame came from. So
  a stray line, then blank lines, then a header line and a well-formed entry line give
  an open stack whose one frame has the function of the stray line and the file and
  line number of the entry line.
\<close>

theorem stray_line_no_stack_open:
  "(strip_prefix re raw = Returns line \<and> line \<noteq> [] \<and>
    \<not> strings_HasPrefix line ''goroutine'' \<and> \<not> strings_HasPrefix line ''created by'' \<and>
    cur p = None \<longrightarrow>
      (frame p = None \<and> last line \<noteq> CHR ''('' \<longrightarrow>
         (\<exists>f. function_line line = Returns f \<and>
              iteration re p raw rest = Next (p\<lparr>frame := Some f\<rparr>))) \<and>
      (frame p = None \<and> last line = CHR ''('' \<longrightarrow> (\<exists>e. iteration re p raw rest = Panicked e)) \<and>
      (frame p \<noteq> None \<longrightarrow>
         (\<exists>e. iteration re p raw rest = ReturnErr e) \<or>
         iteration re p raw rest = Panicked NilDereference)) \<and>
   (kind re raw_k \<noteq> FrameLine \<and>
    (iteration re p_k raw_k rest_k = Next q_k \<or> iteration re p_k raw_k rest_k = NextAfter q_k) \<longrightarrow>
      frame q_k = frame p_k) \<and>
   (kind re raw_e = FrameLine \<and> strip_prefix re raw_e = Returns line_e \<and> frame p_e = Some f_e \<longrightarrow>
      iteration re p_e raw_e rest_e =
        (case parseEntryLine line_e of
           Inl e \<Rightarrow> ReturnErr e
         | Inr (fl, ln, entry) \<Rightarrow>
             (case cur p_e of
                None \<Rightarrow> Panicked NilDereference
              | Some c \<Rightarrow>
                  Next (p_e\<lparr>cur := Some (c\<lparr>Frames := Frames c @
                           [f_e\<lparr>File := fl, Line := ln, Entry := entry\<rparr>]\<rparr>),
                         frame := None\<rparr>)))) \<and>
   (cur p_s = None \<and> frame p_s = None \<and>
    kind re stray = FrameLine \<and> strip_prefix re stray = Returns sline \<and>
    function_line sline = Returns f_s \<and>
    list_all (\<lambda>l. kind re l = Blank) blanks \<and>
    kind re hdr = Header \<and> strip_prefix re hdr = Returns hline \<and>
    header_line hline = Returns (Inr st) \<and>
    kind re ent = FrameLine \<and> strip_prefix re ent = Returns eline \<and>
    parseEntryLine eline = Inr (fl_s, ln_s, entry_s) \<longrightarrow>
      scan_loop re p_s (stray # blanks @ hdr # ent # later) =
        scan_loop re
          \<lparr>cur = Some (st\<lparr>Frames := [f_s\<lparr>File := fl_s, Line := ln_s, Entry := entry_s\<rparr>]\<rparr>),
           stacks = stacks p_s, frame = None, lineNo = lineNo p_s + length blanks + 3\<rparr> later)"
proof -
  have first: "(frame p = None \<and> last line \<noteq> CHR ''('' \<longrightarrow>
         (\<exists>f. function_line line = Returns f \<and>
              iteration re p raw rest = Next (p\<lparr>frame := Some f\<rparr>))) \<and>
      (frame p = None \<and> last line = CHR ''('' \<longrightarrow> (\<exists>e. iteration re p raw rest = Panicked e)) \<and>
      (frame p \<noteq> None \<longrightarrow>
         (\<exists>e. iteration re p raw rest = ReturnErr e) \<or>
         iteration re p raw rest = Panicked NilDereference)"
    if h: "strip_prefix re raw = Returns line" "line \<noteq> []"
      "\<not> strings_HasPrefix line ''goroutine''" "\<not> strings_HasPrefix line ''created by''"
      "cur p = None"
  proof (intro conjI impI)
    assume a: "frame p = None \<and> last line \<noteq> CHR ''(''"
    with h(2) function_line_panics_iff [of line] obtain f where "function_line line = Returns f"
      by (cases "function_line line") auto
    with h a show "\<exists>f. function_line line = Returns f \<and>
        iteration re p raw rest = Next (p\<lparr>frame := Some f\<rparr>)"
      by (simp add: iteration_function)
  next
    assume a: "frame p = None \<and> last line = CHR ''(''"
    with h(2) function_line_panics_iff [of line] obtain e where "function_line line = Panics e"
      by auto
    with h a show "\<exists>e. iteration re p raw rest = Panicked e"
      by (simp add: iteration_function)
  next
    assume "frame p \<noteq> None"
    then obtain f where "frame p = Some f" by auto
    with h show "(\<exists>e. iteration re p raw rest = ReturnErr e) \<or>
        iteration re p raw rest = Panicked NilDereference"
      by (auto simp: iteration_entry split: sum.splits)
  qed
  have kept: "frame q_k = frame p_k"
    if "kind re raw_k \<noteq> FrameLine"
      and "iteration re p_k raw_k rest_k = Next q_k \<or> iteration re p_k raw_k rest_k = NextAfter q_k"
    using that
    by (cases rule: iteration_branches [where re = re and raw = raw_k and p = p_k])
       (auto simp: kind_def iteration_strip_panics iteration_header iteration_blank
          iteration_created_by
          split: outcome.splits sum.splits list.splits option.splits if_splits)
  have entry: "iteration re p_e raw_e rest_e =
        (case parseEntryLine line_e of
           Inl e \<Rightarrow> ReturnErr e
         | Inr (fl, ln, entry) \<Rightarrow>
             (case cur p_e of
                None \<Rightarrow> Panicked NilDereference
              | Some c \<Rightarrow>
                  Next (p_e\<lparr>cur := Some (c\<lparr>Frames := Frames c @
                           [f_e\<lparr>File := fl, Line := ln, Entry := entry\<rparr>]\<rparr>),
                         frame := None\<rparr>)))"
    if "kind re raw_e = FrameLine" "strip_prefix re raw_e = Returns line_e" "frame p_e = Some f_e"
    using that by (intro iteration_entry) (auto simp: kind_cases)
  have later_block: "scan_loop re p_s (stray # blanks @ hdr # ent # later) =
        scan_loop re
          \<lparr>cur = Some (st\<lparr>Frames := [f_s\<lparr>File := fl_s, Line := ln_s, Entry := entry_s\<rparr>]\<rparr>),
           stacks = stacks p_s, frame = None, lineNo = lineNo p_s + length blanks + 3\<rparr> later"
    if idle: "cur p_s = None" "frame p_s = None"
      and stray: "kind re stray = FrameLine" "strip_prefix re stray = Returns sline"
        "function_line sline = Returns f_s"
      and blanks: "list_all (\<lambda>l. kind re l = Blank) blanks"
      and hdr: "kind re hdr = Header" "strip_prefix re hdr = Returns hline"
        "header_line hline = Returns (Inr st)"
      and ent: "kind re ent = FrameLine" "strip_prefix re ent = Returns eline"
        "parseEntryLine eline = Inr (fl_s, ln_s, entry_s)"
  proof -
    define a where "a = p_s\<lparr>lineNo := lineNo p_s + 1, frame := Some f_s\<rparr>"
    define b where "b = a\<lparr>lineNo := lineNo a + length blanks\<rparr>"
    define c where "c = b\<lparr>lineNo := lineNo b + 1, cur := Some st\<rparr>"
    from stray idle have "iteration re (p_s\<lparr>lineNo := lineNo p_s + 1\<rparr>) stray
        (blanks @ hdr # ent # later) = Next a"
      by (auto simp: kind_cases iteration_function a_def)
    then have 1: "scan_loop re p_s (stray # blanks @ hdr # ent # later) =
        scan_loop re a (blanks @ hdr # ent # later)"
      by simp
    from blanks have "list_all (\<lambda>l. strip_prefix re l = Returns []) blanks"
      by (simp add: kind_cases)
    from scan_loop_blanks [OF this, of a "hdr # ent # later"] idle
    have 2: "scan_loop re a (blanks @ hdr # ent # later) = scan_loop re b (hdr # ent # later)"
      by (simp add: a_def b_def)
    from hdr idle have "iteration re (b\<lparr>lineNo := lineNo b + 1\<rparr>) hdr (ent # later) = Next c"
      by (auto simp: kind_cases iteration_header a_def b_def c_def)
    then have 3: "scan_loop re b (hdr # ent # later) = scan_loop re c (ent # later)"
      by simp
    have fc: "frame (c\<lparr>lineNo := lineNo c + 1\<rparr>) = Some f_s"
      by (simp add: a_def b_def c_def)
    from ent have e: "strip_prefix re ent = Returns eline"
        "\<not> strings_HasPrefix eline ''goroutine''" "eline \<noteq> []"
        "\<not> strings_HasPrefix eline ''created by''"
      by (auto simp: kind_cases)
    from header_line_opens [OF hdr(3)] have "Frames st = []" by simp
    with iteration_entry [OF e fc, of later] ent(3) idle
    have "iteration re (c\<lparr>lineNo := lineNo c + 1\<rparr>) ent later =
        Next \<lparr>cur = Some (st\<lparr>Frames := [f_s\<lparr>File := fl_s, Line := ln_s, Entry := entry_s\<rparr>]\<rparr>),
           stacks = stacks p_s, frame = None, lineNo = lineNo p_s + length blanks + 3\<rparr>"
      by (simp add: a_def b_def c_def)
    then have 4: "scan_loop re c (ent # later) = scan_loop re
          \<lparr>cur = Some (st\<lparr>Frames := [f_s\<lparr>File := fl_s, Line := ln_s, Entry := entry_s\<rparr>]\<rparr>),
           stacks = stacks p_s, frame = None, lineNo = lineNo p_s + length blanks + 3\<rparr> later"
      by simp
    from 1 2 3 4 show ?thesis by simp
  qed
  from first kept entry later_block show ?thesis by blast
qed

text \<open>A stray line, a blank line, a header and an entry line: the stray line is the
  function of the frame of goroutine 5. The turns one by one: the stray line becomes
  the pending frame, the blank line keeps it, and while no stack is open an entry line
  ends the parse.\<close>

theorem stray_line_no_stack_open_witness:
  "iteration None (parser_init\<lparr>lineNo := 1\<rparr>) ''stray line'' [] =
     Next (parser_init\<lparr>lineNo := 1,
        frame := Some \<lparr>Function = ''stray line'', Params = [], File = [], Line = 0, Entry = 0\<rparr>\<rparr>) \<and>
   frame (parser_init\<lparr>lineNo := 2,
        frame := Some \<lparr>Function = ''stray line'', Params = [], File = [], Line = 0, Entry = 0\<rparr>,
        cur := None\<rparr>) =
     Some \<lparr>Function = ''stray line'', Params = [], File = [], Line = 0, Entry = 0\<rparr> \<and>
   iteration None (parser_init\<lparr>lineNo := 2,
        frame := Some \<lparr>Function = ''stray line'', Params = [], File = [], Line = 0, Entry = 0\<rparr>\<rparr>)
      ([TAB] @ ''/a/b.go:10'') [] = Panicked NilDereference \<and>
   scan_loop None parser_init
     [''stray line'', [], ''goroutine 5 [running]:'', [TAB] @ ''/a/b.go:10''] =
     (4, Returns ([\<lparr>Number = 5, State = ''running'', WaitTime = 0,
                    Frames = [\<lparr>Function = ''stray line'', Params = [], File = ''/a/b.go'',
                               Line = 10, Entry = 0\<rparr>],
                    ThreadLocked = False, CreatedBy = CreatedBy_zero\<rparr>], None))"
proof -
  let ?f = "\<lparr>Function = ''stray line'', Params = [], File = [], Line = 0, Entry = 0\<rparr>"
  let ?p = "parser_init\<lparr>lineNo := 1\<rparr>"
  let ?q = "parser_init\<lparr>lineNo := 2, frame := Some ?f\<rparr>"
  let ?st = "\<lparr>Number = 5, State = ''running'', WaitTime = 0, Frames = [],
      ThreadLocked = False, CreatedBy = CreatedBy_zero\<rparr>"
  let ?ent = "[TAB] @ ''/a/b.go:10''"
  have stray: "strip_prefix None ''stray line'' = Returns ''stray line''"
      "kind None ''stray line'' = FrameLine" "function_line ''stray line'' = Returns ?f"
    by (simp_all add: kind_def strip_prefix_def strings_HasPrefix_def function_line_def
        strings_LastIndexByte_def)
  have blank: "kind None [] = Blank" "iteration None ?q [] [] = Next (?q\<lparr>cur := None\<rparr>)"
    by (simp_all add: kind_def go_eval parse_eval)
  have hdr: "kind None ''goroutine 5 [running]:'' = Header"
      "strip_prefix None ''goroutine 5 [running]:'' = Returns ''goroutine 5 [running]:''"
      "header_line ''goroutine 5 [running]:'' = Returns (Inr ?st)"
    by (simp_all add: kind_def go_eval parse_eval)
  have ent: "kind None ?ent = FrameLine" "strip_prefix None ?ent = Returns ?ent"
      "parseEntryLine ?ent = Inr (''/a/b.go'', 10, 0)"
    by (simp_all add: kind_def go_eval parse_eval)
  have idle: "cur ?p = None" "frame ?p = None" "cur parser_init = None"
      "frame parser_init = None" "cur ?q = None" "frame ?q = Some ?f"
    by (simp_all add: parser_init_def)
  note inst = stray_line_no_stack_open [where re = None and raw = "''stray line''"
      and line = "''stray line''" and p = ?p and rest = "[]"
      and raw_k = "[]" and p_k = ?q and rest_k = "[]" and q_k = "?q\<lparr>cur := None\<rparr>"
      and raw_e = ?ent and line_e = ?ent and p_e = ?q and f_e = ?f and rest_e = "[]"
      and p_s = parser_init and stray = "''stray line''" and sline = "''stray line''"
      and f_s = ?f and blanks = "[[]]" and hdr = "''goroutine 5 [running]:''"
      and hline = "''goroutine 5 [running]:''" and st = ?st and ent = ?ent and eline = ?ent
      and fl_s = "''/a/b.go''" and ln_s = 10 and entry_s = 0 and later = "[]"]
  from inst stray idle
  have 1: "iteration None ?p ''stray line'' [] = Next (?p\<lparr>frame := Some ?f\<rparr>)"
    by (simp add: strings_HasPrefix_def)
  from inst blank have 2: "frame (?q\<lparr>cur := None\<rparr>) = frame ?q"
    by simp
  from inst ent idle have 3: "iteration None ?q ?ent [] = Panicked NilDereference"
    by simp
  from inst stray blank hdr ent idle
  have 4: "scan_loop None parser_init [''stray line'', [], ''goroutine 5 [running]:'', ?ent] =
      (4, Returns ([?st\<lparr>Frames := [?f\<lparr>File := ''/a/b.go'', Line := 10, Entry := 0\<rparr>]\<rparr>], None))"
    by (simp add: parser_init_def)
  from 1 2 3 4 idle show ?thesis by (simp add: parser_init_def)
qed

text \<open>
  Two blocks with a stray line between them, each part followed by a blank line: the
  function line of the second block is read as the entry line of the stray line, and
  the parse fails at line 8. Without the stray line the same input gives two stacks.
\<close>

theorem stray_line_counterexample:
  "ParseStacks (\<lambda>p. None)
     (''goroutine 1 [running]:\<newline>main.main()\<newline>'' @ [TAB] @ ''/a/m.go:3\<newline>\<newline>'' @
      ''stray line\<newline>\<newline>'' @
      ''goroutine 5 [running]:\<newline>foo.Bar()\<newline>'' @ [TAB] @ ''/a/b.go:10\<newline>\<newline>'') [] =
     Returns ([], Some (AtLine 8 (ExpectedColon 0))) \<and>
   ParseStacks (\<lambda>p. None)
     (''goroutine 1 [running]:\<newline>main.main()\<newline>'' @ [TAB] @ ''/a/m.go:3\<newline>\<newline>'' @
      ''goroutine 5 [running]:\<newline>foo.Bar()\<newline>'' @ [TAB] @ ''/a/b.go:10\<newline>\<newline>'') [] =
     Returns ([\<lparr>Number = 1, State = ''running'', WaitTime = 0,
                Frames = [\<lparr>Function = ''main.main'', Params = [[]], File = ''/a/m.go'',
                           Line = 3, Entry = 0\<rparr>],
                ThreadLocked = False, CreatedBy = CreatedBy_zero\<rparr>,
               \<lparr>Number = 5, State = ''running'', WaitTime = 0,
                Frames = [\<lparr>Function = ''foo.Bar'', Params = [[]], File = ''/a/b.go'',
                           Line = 10, Entry = 0\<rparr>],
                ThreadLocked = False, CreatedBy = CreatedBy_zero\<rparr>], None)"
  by (simp add: go_eval parse_eval)

text \<open>
  C10 (the pending frame). A blank line and a header line leave the pending frame as
  it is, while they close the open stack. A turn of the loop that goes on and empties
  the slot is a turn that parsed its line as the entry line of the pending frame and
  appended the frame to the open stack. So a frame begun in one block can be completed
  by a line of a later block, as in the first input below, where the frame of
  goroutine 1 ends up in goroutine 2; and at the end of the input a pending frame is
  dropped without an error, as in the second.
\<close>

theorem pending_frame_slot:
  "(strip_prefix re raw = Returns line \<and> (line = [] \<or> strings_HasPrefix line ''goroutine'') \<and>
      iteration re p raw rest = Next p' \<longrightarrow>
        frame p' = frame p \<and>
        stacks p' = (case cur p of Some c \<Rightarrow> stacks p @ [c] | None \<Rightarrow> stacks p)) \<and>
   (frame p = Some f \<and> frame p'' = None \<and>
      (iteration re p raw rest = Next p'' \<or> iteration re p raw rest = NextAfter p'') \<longrightarrow>
        (\<exists>line file ln entry c.
           strip_prefix re raw = Returns line \<and> parseEntryLine line = Inr (file, ln, entry) \<and>
           cur p = Some c \<and>
           p'' = p\<lparr>cur := Some (c\<lparr>Frames := Frames c @
                         [f\<lparr>File := file, Line := ln, Entry := entry\<rparr>]\<rparr>),
                   frame := None\<rparr>)) \<and>
   scan_loop re (p\<lparr>frame := Some f\<rparr>) [] = scan_loop re (p\<lparr>frame := None\<rparr>) [] \<and>
   ParseStacks Compile
     (''goroutine 1 [running]:\<newline>foo()\<newline>\<newline>goroutine 2 [running]:\<newline>'' @ [TAB] @ ''/a.go:1\<newline>'') [] =
     Returns ([\<lparr>Number = 1, State = ''running'', WaitTime = 0, Frames = [],
                ThreadLocked = False, CreatedBy = CreatedBy_zero\<rparr>,
               \<lparr>Number = 2, State = ''running'', WaitTime = 0,
                Frames = [\<lparr>Function = ''foo'', Params = [[]], File = ''/a.go'', Line = 1,
                           Entry = 0\<rparr>],
                ThreadLocked = False, CreatedBy = CreatedBy_zero\<rparr>], None) \<and>
   ParseStacks Compile ''goroutine 1 [running]:\<newline>foo()\<newline>'' [] =
     Returns ([\<lparr>Number = 1, State = ''running'', WaitTime = 0, Frames = [],
                ThreadLocked = False, CreatedBy = CreatedBy_zero\<rparr>], None)"
proof (intro conjI impI)
  assume "strip_prefix re raw = Returns line \<and> (line = [] \<or> strings_HasPrefix line ''goroutine'') \<and>
      iteration re p raw rest = Next p'"
  then show "frame p' = frame p"
    and "stacks p' = (case cur p of Some c \<Rightarrow> stacks p @ [c] | None \<Rightarrow> stacks p)"
    by (auto simp: iteration_blank iteration_header split: outcome.splits sum.splits)
next
  assume a: "frame p = Some f \<and> frame p'' = None \<and>
      (iteration re p raw rest = Next p'' \<or> iteration re p raw rest = NextAfter p'')"
  show "\<exists>line file ln entry c.
           strip_prefix re raw = Returns line \<and> parseEntryLine line = Inr (file, ln, entry) \<and>
           cur p = Some c \<and>
           p'' = p\<lparr>cur := Some (c\<lparr>Frames := Frames c @
                         [f\<lparr>File := file, Line := ln, Entry := entry\<rparr>]\<rparr>),
                   frame := None\<rparr>"
  proof (cases rule: iteration_branches [where re = re and raw = raw and p = p])
    case (strip_panics e)
    with a show ?thesis by (simp add: iteration_strip_panics)
  next
    case (header line)
    with a show ?thesis by (auto simp: iteration_header split: outcome.splits sum.splits)
  next
    case blank
    with a show ?thesis by (auto simp: iteration_blank)
  next
    case (created_by line)
    with a show ?thesis
      by (auto simp: iteration_created_by split: list.splits sum.splits option.splits)
  next
    case (first_line line)
    with a show ?thesis by simp
  next
    case (second_line line g)
    with a show ?thesis
      by (auto simp: iteration_entry split: sum.splits option.splits)
  qed
next
  show "scan_loop re (p\<lparr>frame := Some f\<rparr>) [] = scan_loop re (p\<lparr>frame := None\<rparr>) []"
    by (simp split: option.splits)
qed (simp_all add: go_eval parse_eval)

theorem pending_frame_slot_witness:
  "iteration None
     \<lparr>cur = Some \<lparr>Number = 1, State = ''running'', WaitTime = 0, Frames = [],
                  ThreadLocked = False, CreatedBy = CreatedBy_zero\<rparr>,
      stacks = [],
      frame = Some \<lparr>Function = ''foo'', Params = [[]], File = [], Line = 0, Entry = 0\<rparr>,
      lineNo = 3\<rparr> [] []
   = Next
     \<lparr>cur = None,
      stacks = [\<lparr>Number = 1, State = ''running'', WaitTime = 0, Frames = [],
                ThreadLocked = False, CreatedBy = CreatedBy_zero\<rparr>],
      frame = Some \<lparr>Function = ''foo'', Params = [[]], File = [], Line = 0, Entry = 0\<rparr>,
      lineNo = 3\<rparr> \<and>
   iteration None
     \<lparr>cur = Some \<lparr>Number = 2, State = ''running'', WaitTime = 0, Frames = [],
                  ThreadLocked = False, CreatedBy = CreatedBy_zero\<rparr>,
      stacks = [],
      frame = Some \<lparr>Function = ''foo'', Params = [[]], File = [], Line = 0, Entry = 0\<rparr>,
      lineNo = 5\<rparr> (TAB # ''/a.go:1'') []
   = Next
     \<lparr>cur = Some \<lparr>Number = 2, State = ''running'', WaitTime = 0,
                  Frames = [\<lparr>Function = ''foo'', Params = [[]], File = ''/a.go'', Line = 1,
                             Entry = 0\<rparr>],
                  ThreadLocked = False, CreatedBy = CreatedBy_zero\<rparr>,
      stacks = [], frame = None, lineNo = 5\<rparr>"
proof -
  let ?f = "\<lparr>Function = ''foo'', Params = [[]], File = [], Line = 0, Entry = 0\<rparr>"
  let ?c1 = "\<lparr>Number = 1, State = ''running'', WaitTime = 0, Frames = [],
              ThreadLocked = False, CreatedBy = CreatedBy_zero\<rparr>"
  let ?c2 = "\<lparr>Number = 2, State = ''running'', WaitTime = 0, Frames = [],
              ThreadLocked = False, CreatedBy = CreatedBy_zero\<rparr>"
  let ?p = "\<lparr>cur = Some ?c1, stacks = [], frame = Some ?f, lineNo = 3\<rparr>"
  let ?q = "\<lparr>cur = Some ?c2, stacks = [], frame = Some ?f, lineNo = 5\<rparr>"
  obtain p' where blank: "iteration None ?p [] [] = Next p'"
    by (simp add: iteration_blank strip_prefix_def)
  have strip: "strip_prefix None [] = Returns []"
    by (simp add: strip_prefix_def)
  from pending_frame_slot [where re = None and raw = "[]" and line = "[]" and p = ?p
      and rest = "[]" and p' = p'] strip blank
  have kept: "frame p' = Some ?f" "stacks p' = [?c1]"
    by simp_all
  from blank have "p' = ?p\<lparr>stacks := [?c1], cur := None\<rparr>"
    by (simp add: iteration_blank strip_prefix_def)
  with blank kept have first: "iteration None ?p [] [] =
      Next \<lparr>cur = None, stacks = [?c1], frame = Some ?f, lineNo = 3\<rparr>"
    by simp
  have second: "iteration None ?q (TAB # ''/a.go:1'') [] =
      Next \<lparr>cur = Some (?c2\<lparr>Frames := [?f\<lparr>File := ''/a.go'', Line := 1, Entry := 0\<rparr>]\<rparr>),
             stacks = [], frame = None, lineNo = 5\<rparr>"
    by (simp add: iteration_def go_eval parse_eval)
  from first second show ?thesis by simp
qed

lemma header_line_cb: "header_line line = Returns (Inr st) \<Longrightarrow> CreatedBy st = CreatedBy_zero"
  by (auto simp: header_line_def Let_def split: if_splits sum.splits prod.splits)

lemma iteration_cb_zero:
  assumes "cb_zero p" "\<not> strings_HasPrefix raw ''created by''"
    and "iteration None p raw rest = Next p' \<or> iteration None p raw rest = NextAfter p'"
  shows "cb_zero p'"
proof (cases rule: iteration_branches [where re = None and raw = raw and p = p])
  case (strip_panics e)
  then show ?thesis by (simp add: strip_prefix_def)
next
  case (header line)
  with assms show ?thesis
    by (auto simp: iteration_header cb_zero_def split: outcome.splits sum.splits option.splits
        dest: header_line_cb)
next
  case blank
  with assms show ?thesis
    by (auto simp: iteration_blank cb_zero_def split: option.splits)
next
  case (created_by line)
  with assms show ?thesis by (simp add: strip_prefix_def)
next
  case (first_line line)
  with assms show ?thesis
    by (auto simp: iteration_function cb_zero_def split: outcome.splits option.splits)
next
  case (second_line line f)
  with assms show ?thesis
    by (auto simp: iteration_entry cb_zero_def split: sum.splits option.splits)
qed

lemma scan_loop_cb_zero:
  "cb_zero p \<Longrightarrow> list_all (\<lambda>l. \<not> strings_HasPrefix l ''created by'') lines \<Longrightarrow>
   scan_loop None p lines = (n, Returns (sts, err)) \<Longrightarrow>
   list_all (\<lambda>s. CreatedBy s = CreatedBy_zero) sts"
proof (induction "None :: (string \<Rightarrow> string) option" p lines arbitrary: n sts err
    rule: scan_loop.induct)
  case (1 p)
  then show ?case by (auto simp: cb_zero_def split: option.splits)
next
  case (2 p raw rest)
  let ?p = "p\<lparr>lineNo := lineNo p + 1\<rparr>"
  from "2.prems"(1) have inv: "cb_zero ?p" by (simp add: cb_zero_def)
  from "2.prems"(2) have raw: "\<not> strings_HasPrefix raw ''created by''"
    and rest: "list_all (\<lambda>l. \<not> strings_HasPrefix l ''created by'') rest"
    and tl_rest: "list_all (\<lambda>l. \<not> strings_HasPrefix l ''created by'') (tl rest)"
    by (cases rest; simp)+
  show ?case
  proof (cases "iteration None ?p raw rest")
    case (Next p')
    with inv raw have "cb_zero p'" using iteration_cb_zero by blast
    moreover from Next "2.prems"(3) have "scan_loop None p' rest = (n, Returns (sts, err))"
      by simp
    ultimately show ?thesis using "2.hyps"(1) [OF Next] rest by blast
  next
    case (NextAfter p')
    with inv raw have "cb_zero p'" using iteration_cb_zero by blast
    moreover from NextAfter "2.prems"(3)
    have "scan_loop None p' (tl rest) = (n, Returns (sts, err))" by simp
    ultimately show ?thesis using "2.hyps"(2) [OF NextAfter] tl_rest by blast
  next
    case (ReturnErr e)
    with "2.prems"(3) show ?thesis by auto
  next
    case (Panicked e)
    with "2.prems"(3) show ?thesis by auto
  qed
qed

lemma fmt_d_0: "fmt_d 0 = ''0''"
  by (simp add: fmt_d_def digits_of.simps)

text \<open>The minutes of a wait time: a whole number of minutes is rendered as it is; a wait
  time within a nanosecond of the next minute can be rendered as that minute.\<close>

lemma top_power_le: "0 < p \<Longrightarrow> p \<le> n \<Longrightarrow> top_power p n \<le> n"
proof (induction p n rule: top_power.induct)
  case (1 p n)
  then show ?case by (subst top_power.simps) auto
qed

lemma Minutes_int_whole:
  assumes "\<bar>n\<bar> < 2 ^ 52"
  shows "Minutes_int (n * Minute) = n"
proof -
  have m: "0 < Minute" by (simp add: Minute_def)
  have a: "\<bar>n * Minute\<bar> div Minute = \<bar>n\<bar>" "\<bar>n * Minute\<bar> mod Minute = 0"
    using m by (simp_all add: abs_mult)
  have "top_power 1 (\<bar>n\<bar> + 1) \<le> \<bar>n\<bar> + 1" by (rule top_power_le) simp_all
  with assms have g: "(if \<bar>n\<bar> + 1 = top_power 1 (\<bar>n\<bar> + 1) then top_power 1 (\<bar>n\<bar> + 1)
      else 2 * top_power 1 (\<bar>n\<bar> + 1)) < 2 ^ 54 - 1"
    by auto
  have s: "sgn (n * Minute) = sgn n" using m by (simp add: sgn_mult)
  from g m have "\<not> Minute * (2 ^ 54 - (if \<bar>n\<bar> + 1 = top_power 1 (\<bar>n\<bar> + 1) then top_power 1 (\<bar>n\<bar> + 1)
      else 2 * top_power 1 (\<bar>n\<bar> + 1)) - 1) < 0"
    by (simp add: mult_less_0_iff)
  with a s show ?thesis
    by (simp add: Minutes_int_def Let_def sgn_mult_abs)
qed

lemma Minutes_int_rounds_up:
  "Minutes_int (5 * Minute + 59999999999) = 5 \<and>
   Minutes_int (262144 * Minute + 59999999999) = 262145 \<and>
   Minutes_int (- (262144 * Minute + 59999999999)) = - 262145"
  by (simp add: Minutes_int_def Minute_def top_power.simps)

lemma parsed_block:
  assumes parse: "ParseStacks Compile r linePrefix = Returns (sts, None)"
    and re: "re = (if linePrefix = [] then None else Compile linePrefix)"
    and lines: "Scanner_lines r = pre @ hdr # body @ post"
    and before: "run re parser_init pre = Some p"
    and hdr: "kind re hdr = Header"
    and body: "list_all (\<lambda>l. kind re l = FrameLine) body"
    and closes: "post = [] \<or> kind re (hd post) = Blank \<or> kind re (hd post) = Header"
    and k: "k = length (stacks p) + (case cur p of None \<Rightarrow> 0 | Some open_stack \<Rightarrow> 1)"
  shows "k < length sts \<and>
      (\<exists>line st. strip_prefix re hdr = Returns line \<and> header_line line = Returns (Inr st) \<and>
         (sts ! k)\<lparr>Frames := []\<rparr> = st) \<and>
      CreatedBy (sts ! k) = CreatedBy_zero"
proof -
  obtain n ex where loop: "scan_loop re parser_init (Scanner_lines r) = (n, ex)"
    by (cases "scan_loop re parser_init (Scanner_lines r)") auto
  have re': "(if linePrefix \<noteq> [] then Compile linePrefix else None) = re"
    using re by simp
  from parse have "ParseStacks Compile r linePrefix = deferred n ex"
    unfolding ParseStacks_cases re' using loop by (simp split: if_splits)
  with parse have "deferred n ex = Returns (sts, None)" by simp
  then have "ex = Returns (sts, None)"
    by (cases "(n, ex)" rule: deferred.cases) auto
  with loop lines have "scan_loop re parser_init (pre @ hdr # body @ post) = (n, Returns (sts, None))"
    by simp
  then have at_hdr: "scan_loop re p (hdr # body @ post) = (n, Returns (sts, None))"
    using run_append [OF before, of "hdr # body @ post"] by simp
  from hdr obtain line where line: "strip_prefix re hdr = Returns line"
      "strings_HasPrefix line ''goroutine''"
    by (auto simp: kind_cases)
  define p1 where "p1 = p\<lparr>lineNo := lineNo p + 1\<rparr>"
  define q where "q st = p1\<lparr>stacks := (case cur p1 of Some c \<Rightarrow> stacks p1 @ [c] | None \<Rightarrow> stacks p1),
               cur := Some st\<rparr>" for st
  have turn: "iteration re p1 hdr (body @ post) =
     (case header_line line of
        Panics e \<Rightarrow> Panicked e
      | Returns (Inl e) \<Rightarrow> ReturnErr e
      | Returns (Inr st) \<Rightarrow> Next (q st))"
    unfolding q_def by (rule iteration_header [OF line])
  from at_hdr have "(case iteration re p1 hdr (body @ post) of
       Next p' \<Rightarrow> scan_loop re p' (body @ post)
     | NextAfter p' \<Rightarrow> scan_loop re p' (tl (body @ post))
     | ReturnErr e \<Rightarrow> (lineNo p + 1, Returns ([], Some e))
     | Panicked e \<Rightarrow> (lineNo p + 1, Panics e)) = (n, Returns (sts, None))"
    by (simp add: p1_def)
  then obtain st where st: "header_line line = Returns (Inr st)"
    and opened: "scan_loop re (q st) (body @ post) = (n, Returns (sts, None))"
    unfolding turn by (auto split: outcome.splits sum.splits)
  have "cur (q st) = Some st" by (simp add: q_def)
  from scan_loop_frame_lines [OF body opened this]
  obtain q' c' where q': "scan_loop re q' post = (n, Returns (sts, None))"
      "stacks q' = stacks (q st)" "cur q' = Some c'" "c'\<lparr>Frames := []\<rparr> = st\<lparr>Frames := []\<rparr>"
    by auto
  from scan_loop_closing [OF q'(1) closes q'(3)]
  have emitted: "length (stacks q') < length sts" "sts ! length (stacks q') = c'"
    by simp_all
  from k q'(2) have k': "k = length (stacks q')"
    by (simp add: q_def p1_def split: option.splits)
  from header_line_opens [OF st] q'(4) have same: "c'\<lparr>Frames := []\<rparr> = st"
    by simp
  then have "CreatedBy c' = CreatedBy st"
    by (metis Stack.select_convs(6) Stack.surjective Stack.update_convs(4))
  with header_line_opens [OF st] have zero: "CreatedBy c' = CreatedBy_zero" by simp
  from emitted k' line st same zero show ?thesis by auto
qed

text \<open>
  C8 (the creator trailer). The rendering of a stack always ends with the trailer
  "created by", the function, and the line of the file and line number, taken from the
  \<^verbatim>\<open>CreatedBy\<close> field. Take any block of the input: a header line that the loop reaches
  in some state \<open>p\<close>, after the lines \<open>pre\<close>, followed by lines of frames only, no
  "created by" line among them, up to a blank line, the next header or the end of the
  input. In a successful parse the stack of that block is the stack the header opened,
  but for its frames: its \<^verbatim>\<open>CreatedBy\<close> is the zero value, whatever the blocks before it
  hold, and its rendering ends with "created by " and an empty function, then the line
  made of a tab and ":0". The same holds for every stack of an input without any
  "created by" line.
\<close>

theorem Stack_String_trailer:
  "suffix (CreatedBy_String (CreatedBy s) @ [NL]) (Stack_String s) \<and>
   prefix (''created by '' @ Function_cb c @ [NL, TAB] @ File_cb c @ '':'' @ fmt_d (Line_cb c))
     (CreatedBy_String c) \<and>
   (ParseStacks Compile r linePrefix = Returns (sts, None) \<and>
    re = (if linePrefix = [] then None else Compile linePrefix) \<and>
    Scanner_lines r = pre @ hdr # body @ post \<and>
    run re parser_init pre = Some p \<and>
    kind re hdr = Header \<and> list_all (\<lambda>l. kind re l = FrameLine) body \<and>
    (post = [] \<or> kind re (hd post) = Blank \<or> kind re (hd post) = Header) \<and>
    k = length (stacks p) + (case cur p of None \<Rightarrow> 0 | Some open_stack \<Rightarrow> 1) \<longrightarrow>
      k < length sts \<and>
      (\<exists>line st. strip_prefix re hdr = Returns line \<and> header_line line = Returns (Inr st) \<and>
         (sts ! k)\<lparr>Frames := []\<rparr> = st) \<and>
      CreatedBy (sts ! k) = CreatedBy_zero \<and>
      suffix (''created by '' @ [NL, TAB] @ '':0'' @ [NL]) (Stack_String (sts ! k))) \<and>
   (list_all (\<lambda>l. \<not> strings_HasPrefix l ''created by'') (Scanner_lines r') \<and>
    ParseStacks Compile r' [] = Returns (sts', err) \<and> s' \<in> set sts' \<longrightarrow>
      CreatedBy s' = CreatedBy_zero \<and>
      suffix (''created by '' @ [NL, TAB] @ '':0'' @ [NL]) (Stack_String s'))"
proof -
  have trailer: "suffix (CreatedBy_String (CreatedBy s) @ [NL]) (Stack_String s)" for s
    by (simp add: Stack_String_def Let_def suffix_def)
  have zero_text: "CreatedBy_String CreatedBy_zero = ''created by '' @ [NL, TAB] @ '':0''"
    by (simp add: CreatedBy_String_def CreatedBy_zero_def fmt_d_0)
  have zero_trailer: "suffix (''created by '' @ [NL, TAB] @ '':0'' @ [NL]) (Stack_String s)"
    if "CreatedBy s = CreatedBy_zero" for s
    using trailer [of s] that zero_text by simp
  have shape: "prefix (''created by '' @ Function_cb c @ [NL, TAB] @ File_cb c @ '':'' @
      fmt_d (Line_cb c)) (CreatedBy_String c)"
    by (simp add: CreatedBy_String_def prefix_def)
  have block: "k < length sts \<and>
      (\<exists>line st. strip_prefix re hdr = Returns line \<and> header_line line = Returns (Inr st) \<and>
         (sts ! k)\<lparr>Frames := []\<rparr> = st) \<and>
      CreatedBy (sts ! k) = CreatedBy_zero \<and>
      suffix (''created by '' @ [NL, TAB] @ '':0'' @ [NL]) (Stack_String (sts ! k))"
    if "ParseStacks Compile r linePrefix = Returns (sts, None)"
      and "re = (if linePrefix = [] then None else Compile linePrefix)"
      and "Scanner_lines r = pre @ hdr # body @ post"
      and "run re parser_init pre = Some p"
      and "kind re hdr = Header" and "list_all (\<lambda>l. kind re l = FrameLine) body"
      and "post = [] \<or> kind re (hd post) = Blank \<or> kind re (hd post) = Header"
      and "k = length (stacks p) + (case cur p of None \<Rightarrow> 0 | Some open_stack \<Rightarrow> 1)"
    using parsed_block [OF that] zero_trailer [of "sts ! k"] by blast
  have whole: "CreatedBy s' = CreatedBy_zero \<and>
      suffix (''created by '' @ [NL, TAB] @ '':0'' @ [NL]) (Stack_String s')"
    if a: "list_all (\<lambda>l. \<not> strings_HasPrefix l ''created by'') (Scanner_lines r') \<and>
      ParseStacks Compile r' [] = Returns (sts', err) \<and> s' \<in> set sts'"
  proof -
    obtain n ex where loop: "scan_loop None parser_init (Scanner_lines r') = (n, ex)"
      by (cases "scan_loop None parser_init (Scanner_lines r')") auto
    with a have "deferred n ex = Returns (sts', err)" by (simp add: ParseStacks_def)
    with a obtain err' where "ex = Returns (sts', err')"
      by (cases "(n, ex)" rule: deferred.cases) auto
    with loop a have "list_all (\<lambda>s. CreatedBy s = CreatedBy_zero) sts'"
      using scan_loop_cb_zero [of parser_init "Scanner_lines r'" n sts' err']
      by (simp add: cb_zero_def parser_init_def)
    with a have "CreatedBy s' = CreatedBy_zero" by (simp add: list_all_iff)
    with zero_trailer [of s'] show ?thesis by simp
  qed
  from trailer shape block whole show ?thesis by blast
qed

text \<open>The stack of the first example, parsed from a block without a "created by" line,
  and its rendering: the last two lines are the trailer.\<close>

theorem Stack_String_trailer_counterexample:
  "ParseStacks (\<lambda>p. None)
     (''goroutine 5 [running]:\<newline>foo.Bar()\<newline>'' @ [TAB] @ ''/a/b.go:10\<newline>\<newline>'') [] =
   Returns ([\<lparr>Number = 5, State = ''running'', WaitTime = 0,
               Frames = [\<lparr>Function = ''foo.Bar'', Params = [[]], File = ''/a/b.go'',
                          Line = 10, Entry = 0\<rparr>],
               ThreadLocked = False, CreatedBy = CreatedBy_zero\<rparr>], None) \<and>
   Stack_String \<lparr>Number = 5, State = ''running'', WaitTime = 0,
               Frames = [\<lparr>Function = ''foo.Bar'', Params = [[]], File = ''/a/b.go'',
                          Line = 10, Entry = 0\<rparr>],
               ThreadLocked = False, CreatedBy = CreatedBy_zero\<rparr> =
     ''goroutine 5 [running]:\<newline>foo.Bar()\<newline>'' @ [TAB] @ ''/a/b.go:10\<newline>'' @
     ''created by \<newline>'' @ [TAB] @ '':0\<newline>''"
  by (simp add: go_eval parse_eval Stack_String_def Frame_String_def CreatedBy_String_def
      Minutes_int_def top_power.simps fmt_d_def digits_of.simps)

text \<open>A dump of two blocks: the first has a "created by" line, the second has none. The
  second stack holds the zero record, not the creator of the first.\<close>

theorem Stack_String_trailer_witness:
  "ParseStacks (\<lambda>p. None)
     (''goroutine 1 [select]:\<newline>main.a()\<newline>'' @ [TAB] @ ''/a/a.go:1\<newline>'' @
      ''created by main.main\<newline>'' @ [TAB] @ ''/a/m.go:3\<newline>\<newline>'' @
      ''goroutine 2 [running]:\<newline>main.b()\<newline>'' @ [TAB] @ ''/a/b.go:2\<newline>'') [] =
     Returns ([\<lparr>Number = 1, State = ''select'', WaitTime = 0,
                Frames = [\<lparr>Function = ''main.a'', Params = [[]], File = ''/a/a.go'',
                           Line = 1, Entry = 0\<rparr>],
                ThreadLocked = False,
                CreatedBy = \<lparr>Function_cb = ''main.main'', File_cb = ''/a/m.go'', Line_cb = 3,
                             Entry_cb = 0\<rparr>\<rparr>,
               \<lparr>Number = 2, State = ''running'', WaitTime = 0,
                Frames = [\<lparr>Function = ''main.b'', Params = [[]], File = ''/a/b.go'',
                           Line = 2, Entry = 0\<rparr>],
                ThreadLocked = False, CreatedBy = CreatedBy_zero\<rparr>], None) \<and>
   suffix (''created by '' @ [NL, TAB] @ '':0'' @ [NL])
     (Stack_String \<lparr>Number = 2, State = ''running'', WaitTime = 0,
                Frames = [\<lparr>Function = ''main.b'', Params = [[]], File = ''/a/b.go'',
                           Line = 2, Entry = 0\<rparr>],
                ThreadLocked = False, CreatedBy = CreatedBy_zero\<rparr>)"
proof -
  let ?pre = "[''goroutine 1 [select]:'', ''main.a()'', [TAB] @ ''/a/a.go:1'',
      ''created by main.main'', [TAB] @ ''/a/m.go:3'', []]"
  let ?hdr = "''goroutine 2 [running]:''"
  let ?body = "[''main.b()'', [TAB] @ ''/a/b.go:2'']"
  let ?r = "''goroutine 1 [select]:\<newline>main.a()\<newline>'' @ [TAB] @ ''/a/a.go:1\<newline>'' @
      ''created by main.main\<newline>'' @ [TAB] @ ''/a/m.go:3\<newline>\<newline>'' @
      ''goroutine 2 [running]:\<newline>main.b()\<newline>'' @ [TAB] @ ''/a/b.go:2\<newline>''"
  let ?s1 = "\<lparr>Number = 1, State = ''select'', WaitTime = 0,
                Frames = [\<lparr>Function = ''main.a'', Params = [[]], File = ''/a/a.go'',
                           Line = 1, Entry = 0\<rparr>],
                ThreadLocked = False,
                CreatedBy = \<lparr>Function_cb = ''main.main'', File_cb = ''/a/m.go'', Line_cb = 3,
                             Entry_cb = 0\<rparr>\<rparr>"
  let ?s2 = "\<lparr>Number = 2, State = ''running'', WaitTime = 0,
                Frames = [\<lparr>Function = ''main.b'', Params = [[]], File = ''/a/b.go'',
                           Line = 2, Entry = 0\<rparr>],
                ThreadLocked = False, CreatedBy = CreatedBy_zero\<rparr>"
  let ?p = "\<lparr>cur = None, stacks = [?s1], frame = None, lineNo = 5\<rparr>"
  have parsed: "ParseStacks (\<lambda>p. None) ?r [] = Returns ([?s1, ?s2], None)"
    by (simp add: go_eval parse_eval)
  have lines: "Scanner_lines ?r = ?pre @ ?hdr # ?body @ []"
    by (simp add: go_eval parse_eval)
  have before: "run None parser_init ?pre = Some ?p"
    by (simp add: go_eval parse_eval)
  have shape: "kind None ?hdr = Header" "list_all (\<lambda>l. kind None l = FrameLine) ?body"
    by (simp_all add: kind_def go_eval parse_eval)
  from Stack_String_trailer [where Compile = "\<lambda>p. None" and r = ?r and linePrefix = "[]"
      and sts = "[?s1, ?s2]" and re = None and pre = ?pre and hdr = ?hdr and body = ?body
      and post = "[]" and p = ?p and k = 1] parsed lines before shape
  have "suffix (''created by '' @ [NL, TAB] @ '':0'' @ [NL]) (Stack_String ?s2)"
    by simp
  with parsed show ?thesis by blast
qed

section \<open>Properties of the sorting\<close>

lemma Swap_fields [simp]:
  "Len (Swap ss i j) = Len ss" "CompFunc (Swap ss i j) = CompFunc ss"
  by (simp_all add: Swap_def Len_def)








end
